theory Spec2Isabelle
  imports
    Complex_Main
    "HOL-Library.Char_ord"
    "HOL-Library.List_Lexorder"
    "HOL-Library.Sublist"
begin

section \<open>Configuration\<close>

text \<open>
  Both bots (\<^verbatim>\<open>src/mmbot.py\<close> for MEXC, \<^verbatim>\<open>src/GCBMMbot-MEXC-GCBEX/mmbot.py\<close> for GCBEX)
  read the same module-level settings from the environment once. The record below holds
  them under the names of the source. \<^verbatim>\<open>API_SECRET\<close> is kept as an option: it is the one
  setting on which a method is called (\<^verbatim>\<open>API_SECRET.encode()\<close>), so an unset secret raises
  inside \<^verbatim>\<open>sign\<close>. The numeric settings are Python floats; they are modelled as real
  numbers, so rounding, infinities and NaN are outside the model.
\<close>

record config =
  API_KEY :: string
  API_SECRET :: "string option"
  SYMBOL :: string
  TARGET_PRICE :: real
  SPREAD_PERCENT :: real
  ORDER_SIZE :: real
  PRICE_FLOOR :: real
  PRICE_CEIL :: real
  API_BASE :: string

section \<open>Quote computation\<close>

text \<open>
  The three assignments at the top of each cycle of \<^verbatim>\<open>main\<close>:
  \<^verbatim>\<open>spread = TARGET_PRICE * SPREAD_PERCENT\<close>,
  \<^verbatim>\<open>bid_price = max(TARGET_PRICE - spread, PRICE_FLOOR)\<close>,
  \<^verbatim>\<open>ask_price = min(TARGET_PRICE + spread, PRICE_CEIL)\<close>.
\<close>

definition spread :: "config \<Rightarrow> real" where
  "spread c = TARGET_PRICE c * SPREAD_PERCENT c"

definition bid_price :: "config \<Rightarrow> real" where
  "bid_price c = max (TARGET_PRICE c - spread c) (PRICE_FLOOR c)"

definition ask_price :: "config \<Rightarrow> real" where
  "ask_price c = min (TARGET_PRICE c + spread c) (PRICE_CEIL c)"

text \<open>A configuration with a target above the ceiling: every number is a binary fraction.\<close>

definition cfg_high_target :: config where
  "cfg_high_target =
     \<lparr>API_KEY = ''key'', API_SECRET = Some ''secret'', SYMBOL = ''BTCUSDT'',
      TARGET_PRICE = 200, SPREAD_PERCENT = 1/4, ORDER_SIZE = 1,
      PRICE_FLOOR = 90, PRICE_CEIL = 110, API_BASE = ''https://api.example''\<rparr>"

text \<open>The configuration of the specification's first end-to-end scenario.\<close>

definition cfg_scenario1 :: config where
  "cfg_scenario1 =
     \<lparr>API_KEY = ''key'', API_SECRET = Some ''secret'', SYMBOL = ''ETHUSDT'',
      TARGET_PRICE = 100, SPREAD_PERCENT = 1/100, ORDER_SIZE = 1,
      PRICE_FLOOR = 90, PRICE_CEIL = 110, API_BASE = ''https://api.example''\<rparr>"

section \<open>Python values, exceptions and library functions\<close>

text \<open>
  A parsed JSON document, and any other value the code formats or serialises. A
  \<open>PDict\<close> lists its items in insertion order; its keys are distinct in every
  dictionary Python builds, and \<open>map_of\<close> is the lookup.
\<close>

datatype pyval =
    PNone
  | PBool bool
  | PInt int
  | PFloat real
  | PStr string
  | PList "pyval list"
  | PDict "(string \<times> pyval) list"

text \<open>
  Exceptions. The handlers of the source are all \<^verbatim>\<open>except Exception\<close>, which does not
  catch \<^verbatim>\<open>KeyboardInterrupt\<close> and \<^verbatim>\<open>SystemExit\<close>.
\<close>

datatype exn =
    AttributeError
  | KeyError
  | TypeError
  | ValueError
  | RequestException
  | JSONDecodeError
  | OverflowError
  | KeyboardInterrupt
  | SystemExit

fun is_Exception :: "exn \<Rightarrow> bool" where
  "is_Exception KeyboardInterrupt = False"
| "is_Exception SystemExit = False"
| "is_Exception _ = True"

text \<open>
  Library functions the source calls and that are not part of the repository:
  \<^verbatim>\<open>hmac.new(key, msg, hashlib.sha256).hexdigest()\<close>, \<^verbatim>\<open>float(s)\<close> on a string
  (\<open>None\<close> for \<^verbatim>\<open>ValueError\<close>), \<^verbatim>\<open>float(i)\<close> on an integer (\<open>None\<close> for the
  \<^verbatim>\<open>OverflowError\<close> of an integer beyond the range of a float), the formatting \<^verbatim>\<open>f"{v}"\<close> of a value,
  \<^verbatim>\<open>json.dumps(v, separators=(',', ':'))\<close> and the formatting \<^verbatim>\<open>f"{x:.6f}"\<close>.
  Strings are byte strings, so \<^verbatim>\<open>.encode()\<close> is the identity.
\<close>

record pylib =
  hmac_sha256_hex :: "string \<Rightarrow> string \<Rightarrow> string"
  float_of_str :: "string \<Rightarrow> real option"
  float_of_int :: "int \<Rightarrow> real option"
  format_value :: "pyval \<Rightarrow> string"
  json_dumps :: "pyval \<Rightarrow> string"
  format_6f :: "real \<Rightarrow> string"

text \<open>\<^verbatim>\<open>key in v\<close> for a string key.\<close>

fun py_contains :: "string \<Rightarrow> pyval \<Rightarrow> exn + bool" where
  "py_contains k (PDict kvs) = Inr (List.member (map fst kvs) k)"
| "py_contains k (PList xs) = Inr (List.member xs (PStr k))"
| "py_contains k (PStr s) = Inr (sublist k s)"
| "py_contains k _ = Inl TypeError"

text \<open>\<^verbatim>\<open>v[key]\<close> for a string key.\<close>

fun py_getitem :: "pyval \<Rightarrow> string \<Rightarrow> exn + pyval" where
  "py_getitem (PDict kvs) k = (case map_of kvs k of None \<Rightarrow> Inl KeyError | Some v \<Rightarrow> Inr v)"
| "py_getitem _ k = Inl TypeError"

text \<open>\<^verbatim>\<open>float(v)\<close>.\<close>

fun py_float :: "pylib \<Rightarrow> pyval \<Rightarrow> exn + real" where
  "py_float lib (PStr s) = (case float_of_str lib s of None \<Rightarrow> Inl ValueError | Some r \<Rightarrow> Inr r)"
| "py_float lib (PInt i) = (case float_of_int lib i of None \<Rightarrow> Inl OverflowError | Some r \<Rightarrow> Inr r)"
| "py_float lib (PFloat r) = Inr r"
| "py_float lib (PBool b) = Inr (if b then 1 else 0)"
| "py_float lib _ = Inl TypeError"

text \<open>The items a \<^verbatim>\<open>for\<close> loop over \<^verbatim>\<open>v\<close> visits.\<close>

fun py_iter :: "pyval \<Rightarrow> exn + pyval list" where
  "py_iter (PList xs) = Inr xs"
| "py_iter (PDict kvs) = Inr (map (\<lambda>kv. PStr (fst kv)) kvs)"
| "py_iter (PStr s) = Inr (map (\<lambda>c. PStr [c]) s)"
| "py_iter _ = Inl TypeError"

text \<open>
  \<^verbatim>\<open>d[k] = v\<close> on a dictionary: the value of an existing key is replaced in place, a
  new key is added at the end.
\<close>

definition dict_set :: "string \<Rightarrow> pyval \<Rightarrow> (string \<times> pyval) list \<Rightarrow> (string \<times> pyval) list" where
  "dict_set k v params =
     (if List.member (map fst params) k
      then map (\<lambda>kv. if fst kv = k then (k, v) else kv) params
      else params @ [(k, v)])"

text \<open>\<^verbatim>\<open>str.upper()\<close> on ASCII, \<^verbatim>\<open>sep.join(parts)\<close> and \<^verbatim>\<open>str(n)\<close> for an integer.\<close>

definition upper_char :: "char \<Rightarrow> char" where
  "upper_char c = (if CHR ''a'' \<le> c \<and> c \<le> CHR ''z'' then char_of (of_char c - (32::nat)) else c)"

definition upper :: "string \<Rightarrow> string" where
  "upper s = map upper_char s"

fun join :: "string \<Rightarrow> string list \<Rightarrow> string" where
  "join sep [] = []"
| "join sep [x] = x"
| "join sep (x # y # ys) = x @ sep @ join sep (y # ys)"

definition digit_char :: "nat \<Rightarrow> char" where
  "digit_char d = char_of (48 + d)"

function str_nat :: "nat \<Rightarrow> string" where
  "str_nat n = (if n < 10 then [digit_char n] else str_nat (n div 10) @ [digit_char (n mod 10)])"
  by pat_completeness auto
termination
  by (relation "measure id") auto

declare str_nat.simps [simp del]

definition str_int :: "int \<Rightarrow> string" where
  "str_int i = (if i < 0 then ''-'' @ str_nat (nat (- i)) else str_nat (nat i))"

section \<open>Signer\<close>

text \<open>
  GCBEX (\<^verbatim>\<open>src/GCBMMbot-MEXC-GCBEX/mmbot.py\<close>):
  \<^verbatim>\<open>message = f"{timestamp}{method.upper()}{request_path}{body_json}"\<close>, then the
  hex HMAC-SHA256 of the message under \<^verbatim>\<open>API_SECRET.encode()\<close>, which raises
  \<^verbatim>\<open>AttributeError\<close> when the secret is unset.
\<close>

definition message :: "string \<Rightarrow> string \<Rightarrow> string \<Rightarrow> string \<Rightarrow> string" where
  "message timestamp method request_path body_json =
     timestamp @ upper method @ request_path @ body_json"

definition sign_gcbex :: "config \<Rightarrow> pylib \<Rightarrow> string \<Rightarrow> string \<Rightarrow> string \<Rightarrow> string \<Rightarrow> exn + string" where
  "sign_gcbex c lib timestamp method request_path body_json =
     (case API_SECRET c of
        None \<Rightarrow> Inl AttributeError
      | Some secret \<Rightarrow>
          Inr (hmac_sha256_hex lib secret (message timestamp method request_path body_json)))"

text \<open>
  MEXC (\<^verbatim>\<open>src/mmbot.py\<close>):
  \<^verbatim>\<open>query = '&'.join(f"{k}={params[k]}" for k in sorted(params))\<close>. The dictionary is
  the list of its items; \<^verbatim>\<open>sorted(params)\<close> sorts its keys and \<^verbatim>\<open>params[k]\<close> looks each
  one up.
\<close>

fun query_parts :: "pylib \<Rightarrow> (string \<times> pyval) list \<Rightarrow> string list \<Rightarrow> exn + string list" where
  "query_parts lib params [] = Inr []"
| "query_parts lib params (k # ks) =
     (case map_of params k of
        None \<Rightarrow> Inl KeyError
      | Some v \<Rightarrow>
          (case query_parts lib params ks of
             Inl e \<Rightarrow> Inl e
           | Inr ps \<Rightarrow> Inr ((k @ ''='' @ format_value lib v) # ps)))"

definition query :: "pylib \<Rightarrow> (string \<times> pyval) list \<Rightarrow> exn + string" where
  "query lib params =
     (case query_parts lib params (sort (map fst params)) of
        Inl e \<Rightarrow> Inl e
      | Inr ps \<Rightarrow> Inr (join ''&'' ps))"

definition sign_mexc :: "config \<Rightarrow> pylib \<Rightarrow> (string \<times> pyval) list \<Rightarrow> exn + string" where
  "sign_mexc c lib params =
     (case query lib params of
        Inl e \<Rightarrow> Inl e
      | Inr q \<Rightarrow>
          (case API_SECRET c of
             None \<Rightarrow> Inl AttributeError
           | Some secret \<Rightarrow> Inr (hmac_sha256_hex lib secret q)))"

section \<open>Effects\<close>

text \<open>
  What a run does is a trace of events: the delays, the log records (level and the fixed
  text of the message; interpolated values are left out), the calls of
  \<^verbatim>\<open>send_telegram_alert\<close> (one event per call, carrying the values the message
  interpolates; the per-subscriber posts, and the error log record the source writes for
  a post that fails, are not events) and the HTTP requests sent to the exchange. A request event names the call that
  issued it and holds what is transmitted. An insufficient-funds alert carries the asset,
  the side, the balance and the amount required, in this order.
\<close>

datatype level = INFO | WARNING | ERROR

datatype alert =
    PriceUpdate real
  | NotEnough string string real real
  | BotError exn

datatype call =
    GetPrice
  | GetBalance string
  | PlaceOrder string real
  | ListOrders
  | CancelOrder pyval

record request =
  req_method :: string
  req_url :: string
  req_headers :: "(string \<times> string) list"
  req_params :: "(string \<times> pyval) list"
  req_data :: "string option"

datatype event =
    Sleep nat
  | Log level string
  | Alert alert
  | Http call request

text \<open>
  A computation either returns a value or raises, and leaves the events up to that point.
\<close>

type_synonym 'a act = "(exn + 'a) \<times> event list"

definition ret :: "'a \<Rightarrow> 'a act" where
  "ret x = (Inr x, [])"

definition lift :: "exn + 'a \<Rightarrow> 'a act" where
  "lift r = (r, [])"

definition emit :: "event \<Rightarrow> unit act" where
  "emit ev = (Inr (), [ev])"

definition andthen :: "'a act \<Rightarrow> ('a \<Rightarrow> 'b act) \<Rightarrow> 'b act" where
  "andthen m f =
     (case m of
        (Inl e, tr) \<Rightarrow> (Inl e, tr)
      | (Inr x, tr) \<Rightarrow> (case f x of (r, tr') \<Rightarrow> (r, tr @ tr')))"

text \<open>\<^verbatim>\<open>try: m  except Exception as e: h(e)\<close>.\<close>

definition try_except :: "'a act \<Rightarrow> (exn \<Rightarrow> 'a act) \<Rightarrow> 'a act" where
  "try_except m h =
     (case m of
        (Inr x, tr) \<Rightarrow> (Inr x, tr)
      | (Inl e, tr) \<Rightarrow>
          (if is_Exception e then (case h e of (r, tr') \<Rightarrow> (r, tr @ tr')) else (Inl e, tr)))"

text \<open>
  \<^verbatim>\<open>for x in xs: body\<close>, the body also given the position of the item: an exception
  raised by the body leaves the loop, and the remaining items are not visited.
\<close>

fun for_loop :: "(nat \<Rightarrow> 'a \<Rightarrow> unit act) \<Rightarrow> nat \<Rightarrow> 'a list \<Rightarrow> unit act" where
  "for_loop body k [] = ret ()"
| "for_loop body k (x # xs) =
     (case body k x of
        (Inl e, tr) \<Rightarrow> (Inl e, tr)
      | (Inr u, tr) \<Rightarrow> (case for_loop body (Suc k) xs of (r, tr') \<Rightarrow> (r, tr @ tr')))"

definition sleep :: "nat \<Rightarrow> unit act" where
  "sleep n = emit (Sleep n)"

definition logging :: "level \<Rightarrow> string \<Rightarrow> unit act" where
  "logging l msg = emit (Log l msg)"

definition send_telegram_alert :: "alert \<Rightarrow> unit act" where
  "send_telegram_alert a = emit (Alert a)"

text \<open>
  The inputs of one cycle: the clock readings \<^verbatim>\<open>int(time.time() * 1000)\<close> and, for
  each request to the exchange, either the exception that \<^verbatim>\<open>requests\<close> or
  \<^verbatim>\<open>resp.json()\<close> raises or the parsed JSON document. The cancel requests are numbered
  by the position of the order in the listing. One file decodes the response of a cancel
  request and the other drops it, so for these requests the exception that the request
  itself raises, if any (\<open>cancel_sent\<close>), is kept apart from what \<^verbatim>\<open>.json()\<close> gives
  on the response of a request that went through (\<open>cancel_resp\<close>).
\<close>

record env =
  price_resp :: "exn + pyval"
  orders_ts :: int
  orders_resp :: "exn + pyval"
  cancel_ts :: "nat \<Rightarrow> int"
  cancel_sent :: "nat \<Rightarrow> exn option"
  cancel_resp :: "nat \<Rightarrow> exn + pyval"
  base_ts :: int
  base_resp :: "exn + pyval"
  quote_ts :: int
  quote_resp :: "exn + pyval"
  buy_ts :: int
  buy_resp :: "exn + pyval"
  sell_ts :: int
  sell_resp :: "exn + pyval"

text \<open>A request that raises the given exception, or returns.\<close>

fun transport :: "exn option \<Rightarrow> exn + unit" where
  "transport None = Inr ()"
| "transport (Some e) = Inl e"

section \<open>Exchange client\<close>

subsection \<open>Price\<close>

text \<open>
  \<^verbatim>\<open>get_price\<close> is the same function in both files up to the path of the ticker and the
  field that holds the price (\<^verbatim>\<open>/ticker/price\<close> and \<^verbatim>\<open>price\<close> for MEXC,
  \<^verbatim>\<open>/sapi/v2/ticker\<close> and \<^verbatim>\<open>last\<close> for GCBEX).
\<close>

definition get_price :: "string \<Rightarrow> string \<Rightarrow> config \<Rightarrow> pylib \<Rightarrow> exn + pyval \<Rightarrow> real act" where
  "get_price path field c lib resp =
     try_except
       (andthen (emit (Http GetPrice
            \<lparr>req_method = ''GET'', req_url = API_BASE c @ path, req_headers = [],
             req_params = [(''symbol'', PStr (SYMBOL c))], req_data = None\<rparr>)) (\<lambda>_.
        andthen (lift resp) (\<lambda>data.
        andthen (lift (py_contains field data)) (\<lambda>present.
          if present then
            andthen (lift (py_getitem data field)) (\<lambda>v.
            andthen (lift (py_float lib v)) (\<lambda>price.
            andthen (send_telegram_alert (PriceUpdate price)) (\<lambda>_.
            ret price)))
          else
            andthen (logging WARNING ''Unexpected price response'') (\<lambda>_.
            ret (TARGET_PRICE c))))))
       (\<lambda>e. andthen (logging ERROR ''Price fetch error'') (\<lambda>_. ret (TARGET_PRICE c)))"

definition get_price_mexc :: "config \<Rightarrow> pylib \<Rightarrow> exn + pyval \<Rightarrow> real act" where
  "get_price_mexc = get_price ''/ticker/price'' ''price''"

definition get_price_gcbex :: "config \<Rightarrow> pylib \<Rightarrow> exn + pyval \<Rightarrow> real act" where
  "get_price_gcbex = get_price ''/sapi/v2/ticker'' ''last''"

subsection \<open>Balance\<close>

text \<open>
  The body of the loop \<^verbatim>\<open>for item in data["balances"]\<close>: \<open>Some\<close> is the value the
  function returns from inside the loop, \<open>None\<close> goes on to the next item.
\<close>

definition check_item :: "pylib \<Rightarrow> string \<Rightarrow> pyval \<Rightarrow> exn + real option" where
  "check_item lib asset item =
     (case py_getitem item ''asset'' of
        Inl e \<Rightarrow> Inl e
      | Inr a \<Rightarrow>
          (if a = PStr asset then
             (case py_getitem item ''free'' of
                Inl e \<Rightarrow> Inl e
              | Inr f \<Rightarrow> (case py_float lib f of Inl e \<Rightarrow> Inl e | Inr r \<Rightarrow> Inr (Some r)))
           else Inr None))"

fun scan_balances :: "pylib \<Rightarrow> string \<Rightarrow> pyval list \<Rightarrow> exn + real option" where
  "scan_balances lib asset [] = Inr None"
| "scan_balances lib asset (item # rest) =
     (case check_item lib asset item of
        Inl e \<Rightarrow> Inl e
      | Inr (Some r) \<Rightarrow> Inr (Some r)
      | Inr None \<Rightarrow> scan_balances lib asset rest)"

text \<open>
  The part of \<^verbatim>\<open>get_balance\<close> between \<^verbatim>\<open>data = resp.json()\<close> and the end of the
  \<^verbatim>\<open>try\<close> block, the same in both files. \<open>None\<close> falls through to \<^verbatim>\<open>return 0.0\<close>.
\<close>

definition read_balance :: "pylib \<Rightarrow> string \<Rightarrow> pyval \<Rightarrow> real option act" where
  "read_balance lib asset data =
     andthen (lift (py_contains ''balances'' data)) (\<lambda>present.
       if present then
         andthen (lift (py_getitem data ''balances'')) (\<lambda>balances.
         andthen (lift (py_iter balances)) (\<lambda>items.
         lift (scan_balances lib asset items)))
       else
         andthen (logging WARNING ''Balance fetch error'') (\<lambda>_. ret None))"

definition auth_headers :: "config \<Rightarrow> string \<Rightarrow> string \<Rightarrow> (string \<times> string) list" where
  "auth_headers c timestamp signature =
     [(''X-CH-APIKEY'', API_KEY c), (''X-CH-TS'', timestamp), (''X-CH-SIGN'', signature)]"

definition get_balance_gcbex :: "config \<Rightarrow> pylib \<Rightarrow> int \<Rightarrow> exn + pyval \<Rightarrow> string \<Rightarrow> real act" where
  "get_balance_gcbex c lib ts resp asset =
     (let timestamp = str_int ts; method = ''GET''; request_path = ''/sapi/v1/account'' in
      andthen (lift (sign_gcbex c lib timestamp method request_path [])) (\<lambda>signature.
      andthen
        (try_except
           (andthen (emit (Http (GetBalance asset)
                \<lparr>req_method = ''GET'', req_url = API_BASE c @ request_path,
                 req_headers = auth_headers c timestamp signature,
                 req_params = [], req_data = None\<rparr>)) (\<lambda>_.
            andthen (lift resp) (\<lambda>data. read_balance lib asset data)))
           (\<lambda>e. andthen (logging ERROR ''Balance fetch failed'') (\<lambda>_. ret None)))
        (\<lambda>found. ret (case found of Some r \<Rightarrow> r | None \<Rightarrow> 0))))"

text \<open>
  In \<^verbatim>\<open>src/mmbot.py\<close> the header dictionary is written with the key \<^verbatim>\<open>X-CH-APIKEY\<close>
  twice, and the second value is blanked out in the source; the dictionary holds one item,
  whose value the model takes from the setting \<open>API_KEY\<close>.
\<close>

definition mexc_headers :: "config \<Rightarrow> (string \<times> string) list" where
  "mexc_headers c = [(''X-CH-APIKEY'', API_KEY c)]"

definition get_balance_mexc :: "config \<Rightarrow> pylib \<Rightarrow> int \<Rightarrow> exn + pyval \<Rightarrow> string \<Rightarrow> real act" where
  "get_balance_mexc c lib ts resp asset =
     (let params = [(''timestamp'', PInt ts)] in
      andthen (lift (sign_mexc c lib params)) (\<lambda>signature.
      andthen
        (try_except
           (andthen (emit (Http (GetBalance asset)
                \<lparr>req_method = ''GET'', req_url = API_BASE c @ ''/account'',
                 req_headers = mexc_headers c,
                 req_params = dict_set ''signature'' (PStr signature) params, req_data = None\<rparr>)) (\<lambda>_.
            andthen (lift resp) (\<lambda>data. read_balance lib asset data)))
           (\<lambda>e. andthen (logging ERROR ''Balance fetch failed'') (\<lambda>_. ret None)))
        (\<lambda>found. ret (case found of Some r \<Rightarrow> r | None \<Rightarrow> 0))))"

subsection \<open>Order placement\<close>

definition place_order_gcbex :: "config \<Rightarrow> pylib \<Rightarrow> int \<Rightarrow> exn + pyval \<Rightarrow> string \<Rightarrow> real \<Rightarrow> unit act" where
  "place_order_gcbex c lib ts resp side price =
     (let timestamp = str_int ts; method = ''POST''; request_path = ''/sapi/v2/order'';
          body = PDict [(''symbol'', PStr (SYMBOL c)), (''side'', PStr side),
                        (''type'', PStr ''LIMIT''), (''timeInForce'', PStr ''GTC''),
                        (''quantity'', PFloat (ORDER_SIZE c)),
                        (''price'', PStr (format_6f lib price))];
          body_json = json_dumps lib body in
      andthen (lift (sign_gcbex c lib timestamp method request_path body_json)) (\<lambda>signature.
      try_except
        (andthen (emit (Http (PlaceOrder side price)
             \<lparr>req_method = ''POST'', req_url = API_BASE c @ request_path,
              req_headers = auth_headers c timestamp signature
                              @ [(''Content-Type'', ''application/json'')],
              req_params = [], req_data = Some body_json\<rparr>)) (\<lambda>_.
         andthen (lift resp) (\<lambda>data.
         andthen (lift (py_contains ''orderId'' data)) (\<lambda>placed.
           if placed then logging INFO ''Placed order'' else logging WARNING ''Order error''))))
        (\<lambda>e. logging ERROR ''Error placing order'')))"

definition place_order_mexc :: "config \<Rightarrow> pylib \<Rightarrow> int \<Rightarrow> exn + pyval \<Rightarrow> string \<Rightarrow> real \<Rightarrow> unit act" where
  "place_order_mexc c lib ts resp side price =
     (let params = [(''symbol'', PStr (SYMBOL c)), (''side'', PStr side),
                    (''type'', PStr ''LIMIT''), (''timeInForce'', PStr ''GTC''),
                    (''quantity'', PFloat (ORDER_SIZE c)),
                    (''price'', PStr (format_6f lib price)),
                    (''timestamp'', PInt ts)] in
      andthen (lift (sign_mexc c lib params)) (\<lambda>signature.
      try_except
        (andthen (emit (Http (PlaceOrder side price)
             \<lparr>req_method = ''POST'', req_url = API_BASE c @ ''/api/v3/order'',
              req_headers = mexc_headers c,
              req_params = dict_set ''signature'' (PStr signature) params, req_data = None\<rparr>)) (\<lambda>_.
         andthen (lift resp) (\<lambda>data.
         andthen (lift (py_contains ''orderId'' data)) (\<lambda>placed.
           if placed then logging INFO ''Placed order'' else logging WARNING ''Order error''))))
        (\<lambda>e. logging ERROR ''Error placing order'')))"

subsection \<open>Cancelling the open orders\<close>

fun isinstance_dict :: "pyval \<Rightarrow> bool" where
  "isinstance_dict (PDict kvs) = True"
| "isinstance_dict _ = False"

fun isinstance_list :: "pyval \<Rightarrow> bool" where
  "isinstance_list (PList xs) = True"
| "isinstance_list _ = False"

text \<open>
  GCBEX. The request that lists the open orders (step 1 of \<^verbatim>\<open>cancel_all_orders\<close>):
  the signature is computed from the timestamp, the method and \<^verbatim>\<open>request_path\<close>; the
  query is appended to the URL only.
\<close>

definition list_request_gcbex :: "config \<Rightarrow> pylib \<Rightarrow> int \<Rightarrow> exn + request" where
  "list_request_gcbex c lib ts =
     (let timestamp = str_int ts; method = ''GET''; request_path = ''/sapi/v2/openOrders'';
          query = ''symbol='' @ SYMBOL c in
      case sign_gcbex c lib timestamp method request_path [] of
        Inl e \<Rightarrow> Inl e
      | Inr signature \<Rightarrow>
          Inr \<lparr>req_method = ''GET'', req_url = API_BASE c @ request_path @ ''?'' @ query,
               req_headers = auth_headers c timestamp signature,
               req_params = [], req_data = None\<rparr>)"

text \<open>The body of the loop \<^verbatim>\<open>for order in orders\<close> (step 2), for the order at position \<open>k\<close>.\<close>

definition cancel_order_gcbex :: "config \<Rightarrow> pylib \<Rightarrow> env \<Rightarrow> nat \<Rightarrow> pyval \<Rightarrow> unit act" where
  "cancel_order_gcbex c lib en k order =
     (let cancel_timestamp = str_int (cancel_ts en k); cancel_method = ''POST'';
          cancel_path = ''/sapi/v2/cancel'' in
      andthen (lift (py_getitem order ''orderId'')) (\<lambda>order_id.
      let cancel_body = PDict [(''symbol'', PStr (SYMBOL c)), (''orderId'', order_id)];
          cancel_body_json = json_dumps lib cancel_body in
      andthen (lift (sign_gcbex c lib cancel_timestamp cancel_method cancel_path cancel_body_json))
        (\<lambda>cancel_signature.
      andthen (emit (Http (CancelOrder order_id)
           \<lparr>req_method = ''POST'', req_url = API_BASE c @ cancel_path,
            req_headers = auth_headers c cancel_timestamp cancel_signature
                            @ [(''Content-Type'', ''application/json'')],
            req_params = [], req_data = Some cancel_body_json\<rparr>)) (\<lambda>_.
      andthen (lift (transport (cancel_sent en k))) (\<lambda>_.
      andthen (lift (cancel_resp en k)) (\<lambda>cancel_result.
      andthen (lift (py_contains ''status'' cancel_result)) (\<lambda>has_status.
      andthen (if has_status
               then andthen (lift (py_getitem cancel_result ''status''))
                      (\<lambda>status. ret (status = PStr ''CANCELED''))
               else ret False) (\<lambda>canceled.
        if canceled then logging INFO ''Cancelled Order''
        else logging WARNING ''Failed to cancel''))))))))"

definition cancel_all_orders_gcbex :: "config \<Rightarrow> pylib \<Rightarrow> env \<Rightarrow> unit act" where
  "cancel_all_orders_gcbex c lib en =
     try_except
       (andthen (lift (list_request_gcbex c lib (orders_ts en))) (\<lambda>req.
        andthen (emit (Http ListOrders req)) (\<lambda>_.
        andthen (lift (orders_resp en)) (\<lambda>orders.
        andthen (lift (if isinstance_dict orders then py_contains ''code'' orders else Inr False))
          (\<lambda>is_error.
          if is_error then logging WARNING ''Open Orders Error''
          else if \<not> isinstance_list orders then logging WARNING ''Unexpected open orders response''
          else andthen (lift (py_iter orders)) (\<lambda>items. for_loop (cancel_order_gcbex c lib en) 0 items))))))
       (\<lambda>e. logging ERROR ''Error canceling orders'')"

text \<open>
  MEXC. The loop body sends \<^verbatim>\<open>requests.delete\<close> and drops its result, so only an
  exception of the request itself leaves the loop here; the
  log line after it reads \<^verbatim>\<open>order['orderId']\<close> and \<^verbatim>\<open>order['side']\<close>.
\<close>

definition cancel_order_mexc :: "config \<Rightarrow> pylib \<Rightarrow> env \<Rightarrow> nat \<Rightarrow> pyval \<Rightarrow> unit act" where
  "cancel_order_mexc c lib en k order =
     andthen (lift (py_getitem order ''orderId'')) (\<lambda>order_id.
     let cancel_params = [(''symbol'', PStr (SYMBOL c)), (''orderId'', order_id),
                          (''timestamp'', PInt (cancel_ts en k))] in
     andthen (lift (sign_mexc c lib cancel_params)) (\<lambda>signature.
     andthen (emit (Http (CancelOrder order_id)
          \<lparr>req_method = ''DELETE'', req_url = API_BASE c @ ''/api/v3/order'',
           req_headers = mexc_headers c,
           req_params = dict_set ''signature'' (PStr signature) cancel_params,
           req_data = None\<rparr>)) (\<lambda>_.
     andthen (lift (transport (cancel_sent en k))) (\<lambda>_.
     andthen (lift (py_getitem order ''orderId'')) (\<lambda>_.
     andthen (lift (py_getitem order ''side'')) (\<lambda>_.
     logging INFO ''Cancelled Order''))))))"

definition cancel_all_orders_mexc :: "config \<Rightarrow> pylib \<Rightarrow> env \<Rightarrow> unit act" where
  "cancel_all_orders_mexc c lib en =
     (let params = [(''symbol'', PStr (SYMBOL c)), (''timestamp'', PInt (orders_ts en))] in
      andthen (lift (sign_mexc c lib params)) (\<lambda>signature.
      try_except
        (andthen (emit (Http ListOrders
             \<lparr>req_method = ''GET'', req_url = API_BASE c @ ''/openOrders'',
              req_headers = mexc_headers c,
              req_params = dict_set ''signature'' (PStr signature) params, req_data = None\<rparr>)) (\<lambda>_.
         andthen (lift (orders_resp en)) (\<lambda>orders.
         andthen (lift (if isinstance_dict orders then py_contains ''code'' orders else Inr False))
           (\<lambda>is_error.
           if is_error then logging WARNING ''Cancel Orders Error''
           else if \<not> isinstance_list orders then logging WARNING ''Unexpected orders response''
           else andthen (lift (py_iter orders)) (\<lambda>items. for_loop (cancel_order_mexc c lib en) 0 items)))))
        (\<lambda>e. logging ERROR ''Error canceling orders'')))"

section \<open>Rebalance loop\<close>

text \<open>\<^verbatim>\<open>main\<close> is the same in both files; the exchange selects the client functions.\<close>

datatype exchange = MEXC | GCBEX

fun get_price_of :: "exchange \<Rightarrow> config \<Rightarrow> pylib \<Rightarrow> exn + pyval \<Rightarrow> real act" where
  "get_price_of MEXC = get_price_mexc"
| "get_price_of GCBEX = get_price_gcbex"

fun get_balance :: "exchange \<Rightarrow> config \<Rightarrow> pylib \<Rightarrow> int \<Rightarrow> exn + pyval \<Rightarrow> string \<Rightarrow> real act" where
  "get_balance MEXC = get_balance_mexc"
| "get_balance GCBEX = get_balance_gcbex"

fun place_order :: "exchange \<Rightarrow> config \<Rightarrow> pylib \<Rightarrow> int \<Rightarrow> exn + pyval \<Rightarrow> string \<Rightarrow> real \<Rightarrow> unit act" where
  "place_order MEXC = place_order_mexc"
| "place_order GCBEX = place_order_gcbex"

fun cancel_all_orders :: "exchange \<Rightarrow> config \<Rightarrow> pylib \<Rightarrow> env \<Rightarrow> unit act" where
  "cancel_all_orders MEXC = cancel_all_orders_mexc"
| "cancel_all_orders GCBEX = cancel_all_orders_gcbex"

text \<open>\<^verbatim>\<open>SYMBOL[:-4]\<close> and \<^verbatim>\<open>SYMBOL[-4:]\<close>.\<close>

definition base_asset :: "config \<Rightarrow> string" where
  "base_asset c = take (length (SYMBOL c) - 4) (SYMBOL c)"

definition quote_asset :: "config \<Rightarrow> string" where
  "quote_asset c = drop (length (SYMBOL c) - 4) (SYMBOL c)"

text \<open>The two balance checks of a cycle, with the balances already fetched.\<close>

definition evaluate_buy :: "exchange \<Rightarrow> config \<Rightarrow> pylib \<Rightarrow> env \<Rightarrow> real \<Rightarrow> unit act" where
  "evaluate_buy ex c lib en quote_balance =
     (let required_quote = bid_price c * ORDER_SIZE c in
      if quote_balance \<ge> required_quote
      then place_order ex c lib (buy_ts en) (buy_resp en) ''BUY'' (bid_price c)
      else andthen (logging WARNING ''Not enough to BUY'') (\<lambda>_.
           send_telegram_alert (NotEnough (quote_asset c) ''BUY'' quote_balance required_quote)))"

definition evaluate_sell :: "exchange \<Rightarrow> config \<Rightarrow> pylib \<Rightarrow> env \<Rightarrow> real \<Rightarrow> unit act" where
  "evaluate_sell ex c lib en base_balance =
     (let required_base = ORDER_SIZE c in
      if base_balance \<ge> required_base
      then place_order ex c lib (sell_ts en) (sell_resp en) ''SELL'' (ask_price c)
      else andthen (logging WARNING ''Not enough to SELL'') (\<lambda>_.
           send_telegram_alert (NotEnough (base_asset c) ''SELL'' base_balance required_base)))"

text \<open>The \<^verbatim>\<open>try\<close> block of one cycle.\<close>

definition cycle_body :: "exchange \<Rightarrow> config \<Rightarrow> pylib \<Rightarrow> env \<Rightarrow> unit act" where
  "cycle_body ex c lib en =
     andthen (get_price_of ex c lib (price_resp en)) (\<lambda>current_price.
     andthen (sleep 10) (\<lambda>_.
     andthen (logging INFO ''Target'') (\<lambda>_.
     andthen (cancel_all_orders ex c lib en) (\<lambda>_.
     andthen (sleep 10) (\<lambda>_.
     andthen (get_balance ex c lib (base_ts en) (base_resp en) (base_asset c)) (\<lambda>base_balance.
     andthen (sleep 10) (\<lambda>_.
     andthen (get_balance ex c lib (quote_ts en) (quote_resp en) (quote_asset c)) (\<lambda>quote_balance.
     andthen (sleep 10) (\<lambda>_.
     andthen (evaluate_buy ex c lib en quote_balance) (\<lambda>_.
     andthen (sleep 10) (\<lambda>_.
     andthen (evaluate_sell ex c lib en base_balance) (\<lambda>_.
     sleep 10))))))))))))"

text \<open>One cycle with its handler: \<^verbatim>\<open>except Exception as e\<close> logs, alerts and sleeps.\<close>

definition cycle :: "exchange \<Rightarrow> config \<Rightarrow> pylib \<Rightarrow> env \<Rightarrow> unit act" where
  "cycle ex c lib en =
     try_except (cycle_body ex c lib en)
       (\<lambda>e. andthen (logging ERROR ''Error in loop'') (\<lambda>_.
            andthen (send_telegram_alert (BotError e)) (\<lambda>_.
            sleep 10)))"

text \<open>
  \<^verbatim>\<open>while True\<close> has no \<^verbatim>\<open>break\<close> and no \<^verbatim>\<open>return\<close>: the loop ends only when an
  exception leaves a cycle. \<open>main ex c lib envs n\<close> is the state of the loop after at most
  \<open>n\<close> cycles, cycle \<open>k\<close> reading its inputs from \<open>envs k\<close>: either still running, or stopped
  by an exception, together with the events so far.
\<close>

datatype loop_state = Running | Stopped exn

fun main :: "exchange \<Rightarrow> config \<Rightarrow> pylib \<Rightarrow> (nat \<Rightarrow> env) \<Rightarrow> nat \<Rightarrow> loop_state \<times> event list" where
  "main ex c lib envs 0 = (Running, [])"
| "main ex c lib envs (Suc n) =
     (case main ex c lib envs n of
        (Stopped e, tr) \<Rightarrow> (Stopped e, tr)
      | (Running, tr) \<Rightarrow>
          (case cycle ex c lib (envs n) of
             (Inl e, tr') \<Rightarrow> (Stopped e, tr @ tr')
           | (Inr u, tr') \<Rightarrow> (Running, tr @ tr')))"

section \<open>Specification-level notions\<close>

text \<open>
  A response of the exchange that is not an interrupt: a parsed document, or an exception
  that \<^verbatim>\<open>except Exception\<close> catches (a transport error, a timeout, a body that is not
  JSON).
\<close>

definition not_interrupted :: "exn + 'a \<Rightarrow> bool" where
  "not_interrupted r = (case r of Inl e \<Rightarrow> is_Exception e | Inr x \<Rightarrow> True)"

text \<open>
  The price of the specification's \<^verbatim>\<open>fetchPrice\<close>: the remote price when the response
  is an object that has the price field and the field parses as a number, the configured
  target price otherwise.
\<close>

fun remote_price :: "pylib \<Rightarrow> string \<Rightarrow> exn + pyval \<Rightarrow> real option" where
  "remote_price lib field (Inr (PDict kvs)) =
     (case map_of kvs field of
        None \<Rightarrow> None
      | Some v \<Rightarrow> (case py_float lib v of Inl e \<Rightarrow> None | Inr p \<Rightarrow> Some p))"
| "remote_price lib field _ = None"

definition fetch_price_spec :: "pylib \<Rightarrow> string \<Rightarrow> real \<Rightarrow> exn + pyval \<Rightarrow> real" where
  "fetch_price_spec lib field target resp =
     (case remote_price lib field resp of Some p \<Rightarrow> p | None \<Rightarrow> target)"

text \<open>
  What the specification of \<^verbatim>\<open>fetchBalance\<close> speaks about: the balances field of the
  response, the entries listed under it, whether an entry is the one of the asset, and the
  free amount of an entry as a number.
\<close>

definition balances_field :: "exn + pyval \<Rightarrow> pyval option" where
  "balances_field resp =
     (case resp of Inr (PDict kvs) \<Rightarrow> map_of kvs ''balances'' | _ \<Rightarrow> None)"

definition balance_items :: "exn + pyval \<Rightarrow> pyval list" where
  "balance_items resp =
     (case balances_field resp of
        None \<Rightarrow> []
      | Some b \<Rightarrow> (case py_iter b of Inl e \<Rightarrow> [] | Inr items \<Rightarrow> items))"

definition holds_asset :: "string \<Rightarrow> pyval \<Rightarrow> bool" where
  "holds_asset asset item = (py_getitem item ''asset'' = Inr (PStr asset))"

definition free_amount :: "pylib \<Rightarrow> pyval \<Rightarrow> real option" where
  "free_amount lib item =
     (case py_getitem item ''free'' of
        Inl e \<Rightarrow> None
      | Inr f \<Rightarrow> (case py_float lib f of Inl e \<Rightarrow> None | Inr r \<Rightarrow> Some r))"

text \<open>The value of the \<^verbatim>\<open>try\<close> block of \<^verbatim>\<open>get_balance\<close> followed by \<^verbatim>\<open>return 0.0\<close>.\<close>

definition balance_try :: "pylib \<Rightarrow> string \<Rightarrow> exn + pyval \<Rightarrow> real" where
  "balance_try lib asset resp =
     (case resp of
        Inl e \<Rightarrow> 0
      | Inr data \<Rightarrow> (case fst (read_balance lib asset data) of Inr (Some r) \<Rightarrow> r | _ \<Rightarrow> 0))"

text \<open>
  The canonical messages in the words of the specification: the concatenation, in this
  order, of the timestamp, the upper-cased method, the path and the body; and the
  parameters sorted by key, each written \<^verbatim>\<open>key=value\<close>, joined with \<^verbatim>\<open>&\<close>.
\<close>

definition canonical_header :: "string \<Rightarrow> string \<Rightarrow> string \<Rightarrow> string \<Rightarrow> string" where
  "canonical_header timestamp method path body = concat [timestamp, upper method, path, body]"

definition render :: "pylib \<Rightarrow> string \<times> pyval \<Rightarrow> string" where
  "render lib kv = fst kv @ ''='' @ format_value lib (snd kv)"

definition canonical_params :: "pylib \<Rightarrow> (string \<times> pyval) list \<Rightarrow> string" where
  "canonical_params lib params = join ''&'' (map (render lib) (sort_key fst params))"

text \<open>Two different messages with the same keyed hash under the secret.\<close>

definition collides :: "pylib \<Rightarrow> string \<Rightarrow> string \<Rightarrow> string \<Rightarrow> bool" where
  "collides lib secret x y =
     (x \<noteq> y \<and> hmac_sha256_hex lib secret x = hmac_sha256_hex lib secret y)"

text \<open>The signature a request carries in its \<^verbatim>\<open>X-CH-SIGN\<close> header.\<close>

definition req_signature :: "request \<Rightarrow> string option" where
  "req_signature r = map_of (req_headers r) ''X-CH-SIGN''"

text \<open>
  Observations on the cancel phase: the order ids of the cancel requests in a trace, in the
  order in which they were sent; the \<^verbatim>\<open>orderId\<close> of a listed order; whether a listed
  order has a \<^verbatim>\<open>side\<close>; and whether a response is a JSON object (a success or an
  error-shaped document).
\<close>

fun cancel_attempts :: "event list \<Rightarrow> pyval list" where
  "cancel_attempts [] = []"
| "cancel_attempts (Http (CancelOrder order_id) r # tr) = order_id # cancel_attempts tr"
| "cancel_attempts (ev # tr) = cancel_attempts tr"

definition order_id_of :: "pyval \<Rightarrow> pyval option" where
  "order_id_of order = (case py_getitem order ''orderId'' of Inl e \<Rightarrow> None | Inr v \<Rightarrow> Some v)"

definition has_side :: "pyval \<Rightarrow> bool" where
  "has_side order = (case py_getitem order ''side'' of Inl e \<Rightarrow> False | Inr v \<Rightarrow> True)"

fun is_object :: "exn + pyval \<Rightarrow> bool" where
  "is_object (Inr (PDict kvs)) = True"
| "is_object _ = False"

text \<open>
  The cancel request at position \<open>k\<close> completes: in \<^verbatim>\<open>src/mmbot.py\<close> when the request
  returns, whatever the response; in the GCBEX file when the request returns and the
  response decodes to a JSON object. And the exception with which it leaves the loop: that
  of the request in both files, and in the GCBEX file also that of \<^verbatim>\<open>.json()\<close>.
\<close>

fun cancel_completes :: "exchange \<Rightarrow> env \<Rightarrow> nat \<Rightarrow> bool" where
  "cancel_completes MEXC en k = (cancel_sent en k = None)"
| "cancel_completes GCBEX en k = (cancel_sent en k = None \<and> is_object (cancel_resp en k))"

fun cancel_raises :: "exchange \<Rightarrow> env \<Rightarrow> nat \<Rightarrow> exn option" where
  "cancel_raises MEXC en k = cancel_sent en k"
| "cancel_raises GCBEX en k =
     (case cancel_sent en k of
        Some e \<Rightarrow> Some e
      | None \<Rightarrow> (case cancel_resp en k of Inl e \<Rightarrow> Some e | Inr doc \<Rightarrow> None))"

text \<open>
  A cycle whose inputs are all documents or exceptions that \<^verbatim>\<open>except Exception\<close>
  catches: no request is interrupted.
\<close>

definition env_ok :: "env \<Rightarrow> bool" where
  "env_ok en =
     (not_interrupted (price_resp en) \<and> not_interrupted (orders_resp en)
      \<and> (\<forall>k. not_interrupted (transport (cancel_sent en k)))
      \<and> (\<forall>k. not_interrupted (cancel_resp en k))
      \<and> not_interrupted (base_resp en) \<and> not_interrupted (quote_resp en)
      \<and> not_interrupted (buy_resp en) \<and> not_interrupted (sell_resp en))"

text \<open>
  Observations on the order phase: the side and price of the order requests in a trace, the
  sides of the insufficient-funds alerts, and traces that hold neither.
\<close>

fun orders_placed :: "event list \<Rightarrow> (string \<times> real) list" where
  "orders_placed [] = []"
| "orders_placed (Http (PlaceOrder side price) r # tr) = (side, price) # orders_placed tr"
| "orders_placed (ev # tr) = orders_placed tr"

fun funds_alerts :: "event list \<Rightarrow> string list" where
  "funds_alerts [] = []"
| "funds_alerts (Alert (NotEnough asset side have need) # tr) = side # funds_alerts tr"
| "funds_alerts (ev # tr) = funds_alerts tr"

definition quiet :: "event list \<Rightarrow> bool" where
  "quiet tr = (orders_placed tr = [] \<and> funds_alerts tr = [])"

section \<open>Example inputs\<close>

text \<open>
  Stand-ins for the library functions, used only to evaluate the model on examples: the
  keyed hash is replaced by the key, a colon and the message; only the number literals of
  the examples parse.
\<close>

definition stub_lib :: pylib where
  "stub_lib =
     \<lparr>hmac_sha256_hex = (\<lambda>key msg. key @ '':'' @ msg),
      float_of_str = (\<lambda>s. if s = ''1.5'' then Some (3/2) else if s = ''50'' then Some 50 else None),
      float_of_int = (\<lambda>i. if \<bar>i\<bar> < 2 ^ 1024 then Some (of_int i) else None),
      format_value = (\<lambda>v. case v of PStr s \<Rightarrow> s | PInt i \<Rightarrow> str_int i | _ \<Rightarrow> ''?''),
      json_dumps = (\<lambda>v. case v of PDict kvs \<Rightarrow> concat (map fst kvs) | _ \<Rightarrow> ''?''),
      format_6f = (\<lambda>r. ''?'')\<rparr>"

definition price_doc :: "exn + pyval" where
  "price_doc = Inr (PDict [(''symbol'', PStr ''ETHUSDT''), (''price'', PStr ''1.5'')])"

definition account_doc :: "exn + pyval" where
  "account_doc =
     Inr (PDict [(''balances'',
        PList [PDict [(''asset'', PStr ''ETH''), (''free'', PStr ''1.5'')],
               PDict [(''asset'', PStr ''USDT''), (''free'', PStr ''50'')]])])"

definition open_orders_doc :: "exn + pyval" where
  "open_orders_doc =
     Inr (PList [PDict [(''orderId'', PInt 1), (''side'', PStr ''BUY'')],
                 PDict [(''orderId'', PInt 2), (''side'', PStr ''SELL'')]])"

text \<open>
  A cycle in which every request is answered: two open orders, both cancelled, 1.5 ETH and
  50 USDT free (the balances of the specification's third scenario).
\<close>

definition env_scenario3 :: env where
  "env_scenario3 =
     \<lparr>price_resp = price_doc,
      orders_ts = 1000, orders_resp = open_orders_doc,
      cancel_ts = (\<lambda>k. 2000 + int k),
      cancel_sent = (\<lambda>k. None),
      cancel_resp = (\<lambda>k. Inr (PDict [(''status'', PStr ''CANCELED'')])),
      base_ts = 3000, base_resp = account_doc,
      quote_ts = 4000, quote_resp = account_doc,
      buy_ts = 5000, buy_resp = Inr (PDict [(''orderId'', PInt 7)]),
      sell_ts = 6000, sell_resp = Inr (PDict [(''orderId'', PInt 8)])\<rparr>"

text \<open>The same cycle, except that the first cancel request fails in transport.\<close>

fun first_cancel_fails :: "nat \<Rightarrow> exn option" where
  "first_cancel_fails 0 = Some RequestException"
| "first_cancel_fails (Suc k) = None"

definition env_cancel_fails :: env where
  "env_cancel_fails = env_scenario3\<lparr>cancel_sent := first_cancel_fails\<rparr>"

text \<open>The scenario's configuration with the secret left unset.\<close>

definition cfg_no_secret :: config where
  "cfg_no_secret = cfg_scenario1\<lparr>API_SECRET := None\<rparr>"

section \<open>Properties of the quote computation\<close>

text \<open>
  C1 (as stated): for every target, spread fraction, floor and ceiling with
  floor \<le> ceiling, the quote satisfies floor \<le> bid \<le> ask \<le> ceiling.
  This fails when the target lies outside the band: with target 200, spread fraction 0.25,
  floor 90 and ceiling 110 the bid is 150 and the ask is 110, so the bid is above both the
  ask and the ceiling.
\<close>

theorem C1_counterexample:
  "PRICE_FLOOR cfg_high_target \<le> PRICE_CEIL cfg_high_target
   \<and> bid_price cfg_high_target = 150 \<and> ask_price cfg_high_target = 110
   \<and> \<not> (bid_price cfg_high_target \<le> ask_price cfg_high_target)
   \<and> \<not> (bid_price cfg_high_target \<le> PRICE_CEIL cfg_high_target)"
  by (simp add: cfg_high_target_def bid_price_def ask_price_def spread_def)

text \<open>
  C1 (amended): with floor \<le> ceiling the bid is never below the floor and the ask is
  never above the ceiling; the full chain floor \<le> bid \<le> ask \<le> ceiling holds exactly
  when the spread amount is not negative, target minus spread is at most the ceiling and
  target plus spread is at least the floor (so in particular whenever the target lies
  between floor and ceiling and the spread amount is not negative).
\<close>

theorem C1_quote_within_bounds:
  assumes "PRICE_FLOOR c \<le> PRICE_CEIL c"
  shows "PRICE_FLOOR c \<le> bid_price c \<and> ask_price c \<le> PRICE_CEIL c
    \<and> ((PRICE_FLOOR c \<le> bid_price c \<and> bid_price c \<le> ask_price c \<and> ask_price c \<le> PRICE_CEIL c)
        = (0 \<le> spread c \<and> TARGET_PRICE c - spread c \<le> PRICE_CEIL c
            \<and> PRICE_FLOOR c \<le> TARGET_PRICE c + spread c))"
  using assms unfolding bid_price_def ask_price_def by (auto simp: max_def min_def)

theorem C1_quote_within_bounds_witness:
  "PRICE_FLOOR cfg_scenario1 \<le> PRICE_CEIL cfg_scenario1
   \<and> PRICE_FLOOR cfg_scenario1 \<le> bid_price cfg_scenario1
   \<and> bid_price cfg_scenario1 \<le> ask_price cfg_scenario1
   \<and> ask_price cfg_scenario1 \<le> PRICE_CEIL cfg_scenario1"
proof -
  have h: "PRICE_FLOOR cfg_scenario1 \<le> PRICE_CEIL cfg_scenario1"
    by (simp add: cfg_scenario1_def)
  have s: "0 \<le> spread cfg_scenario1 \<and> TARGET_PRICE cfg_scenario1 - spread cfg_scenario1 \<le> PRICE_CEIL cfg_scenario1
            \<and> PRICE_FLOOR cfg_scenario1 \<le> TARGET_PRICE cfg_scenario1 + spread cfg_scenario1"
    by (simp add: cfg_scenario1_def spread_def)
  show ?thesis using h s C1_quote_within_bounds [OF h] by simp
qed

text \<open>
  C7: the quote is spread = target \<times> fraction, bid = max(target \<minus> spread, floor),
  ask = min(target + spread, ceiling); for target 100, floor 90, ceiling 110 the fraction
  0.01 gives bid 99 and ask 101, and the fraction 0.2 gives bid 90 and ask 110.
\<close>

theorem C7_quote_formula:
  "spread c = TARGET_PRICE c * SPREAD_PERCENT c
   \<and> bid_price c = max (TARGET_PRICE c - TARGET_PRICE c * SPREAD_PERCENT c) (PRICE_FLOOR c)
   \<and> ask_price c = min (TARGET_PRICE c + TARGET_PRICE c * SPREAD_PERCENT c) (PRICE_CEIL c)
   \<and> bid_price (c\<lparr>TARGET_PRICE := 100, SPREAD_PERCENT := 1/100, PRICE_FLOOR := 90, PRICE_CEIL := 110\<rparr>) = 99
   \<and> ask_price (c\<lparr>TARGET_PRICE := 100, SPREAD_PERCENT := 1/100, PRICE_FLOOR := 90, PRICE_CEIL := 110\<rparr>) = 101
   \<and> bid_price (c\<lparr>TARGET_PRICE := 100, SPREAD_PERCENT := 2/10, PRICE_FLOOR := 90, PRICE_CEIL := 110\<rparr>) = 90
   \<and> ask_price (c\<lparr>TARGET_PRICE := 100, SPREAD_PERCENT := 2/10, PRICE_FLOOR := 90, PRICE_CEIL := 110\<rparr>) = 110"
  by (simp add: bid_price_def ask_price_def spread_def)

section \<open>Basic facts about the Python operations\<close>

lemmas act_defs = ret_def lift_def emit_def andthen_def try_except_def sleep_def logging_def
  send_telegram_alert_def

lemma in_keys_iff: "(k \<in> fst ` set kvs) = (map_of kvs k \<noteq> None)"
  by (simp add: map_of_eq_None_iff)

lemma py_float_exn: "py_float lib v = Inl e \<Longrightarrow> is_Exception e"
  by (cases v) (auto split: option.splits)

lemma py_contains_exn: "py_contains k v = Inl e \<Longrightarrow> is_Exception e"
  by (cases v) auto

lemma py_getitem_exn: "py_getitem v k = Inl e \<Longrightarrow> is_Exception e"
  by (cases v) (auto split: option.splits)

lemma py_iter_exn: "py_iter v = Inl e \<Longrightarrow> is_Exception e"
  by (cases v) auto

section \<open>Price and balance\<close>

lemma get_price_result:
  assumes "not_interrupted resp"
  shows "fst (get_price path field c lib resp) = Inr (fetch_price_spec lib field (TARGET_PRICE c) resp)"
proof (cases resp)
  case (Inl e)
  with assms show ?thesis
    by (simp add: get_price_def fetch_price_spec_def not_interrupted_def act_defs)
next
  case (Inr doc)
  show ?thesis
  proof (cases doc)
    case (PDict kvs)
    with Inr show ?thesis
      by (auto simp: get_price_def fetch_price_spec_def act_defs in_keys_iff
        dest: py_float_exn split: option.splits sum.splits)
  qed (use Inr in \<open>auto simp: get_price_def fetch_price_spec_def act_defs\<close>)
qed

text \<open>
  C5: \<^verbatim>\<open>get_price\<close> returns the configured target price, unchanged, on a transport
  error, a malformed response or a response without the price field, and the parsed
  remote price only when the field is present and parses (field \<^verbatim>\<open>price\<close> for MEXC,
  \<^verbatim>\<open>last\<close> for GCBEX). A field that does not parse includes a string that is no
  number and an integer too large for a float.
\<close>

theorem C5_fetch_price:
  assumes "not_interrupted resp"
  shows "fst (get_price_mexc c lib resp) = Inr (fetch_price_spec lib ''price'' (TARGET_PRICE c) resp)
       \<and> fst (get_price_gcbex c lib resp) = Inr (fetch_price_spec lib ''last'' (TARGET_PRICE c) resp)"
  using assms by (simp add: get_price_mexc_def get_price_gcbex_def get_price_result)

theorem C5_fetch_price_witness:
  "not_interrupted price_doc
   \<and> fst (get_price_mexc cfg_scenario1 stub_lib price_doc) = Inr (3/2)
   \<and> fst (get_price_gcbex cfg_scenario1 stub_lib price_doc) = Inr 100
   \<and> fst (get_price_gcbex cfg_scenario1 stub_lib (Inr (PDict [(''last'', PInt (2 ^ 1024))])))
       = Inr 100"
proof -
  have h: "not_interrupted price_doc"
    by (simp add: not_interrupted_def price_doc_def)
  have "fetch_price_spec stub_lib ''price'' (TARGET_PRICE cfg_scenario1) price_doc = 3/2"
    by (simp add: fetch_price_spec_def price_doc_def stub_lib_def)
  moreover have "fetch_price_spec stub_lib ''last'' (TARGET_PRICE cfg_scenario1) price_doc = 100"
    by (simp add: fetch_price_spec_def price_doc_def cfg_scenario1_def)
  ultimately have a: "fst (get_price_mexc cfg_scenario1 stub_lib price_doc) = Inr (3/2)"
    and b: "fst (get_price_gcbex cfg_scenario1 stub_lib price_doc) = Inr 100"
    using C5_fetch_price [OF h, of cfg_scenario1 stub_lib] by simp_all
  let ?big = "Inr (PDict [(''last'', PInt (2 ^ 1024))]) :: exn + pyval"
  have h': "not_interrupted ?big"
    by (simp add: not_interrupted_def)
  have "float_of_int stub_lib (2 ^ 1024) = None"
    by (simp add: stub_lib_def)
  then have "fetch_price_spec stub_lib ''last'' (TARGET_PRICE cfg_scenario1) ?big = 100"
    by (simp add: fetch_price_spec_def cfg_scenario1_def)
  with C5_fetch_price [OF h', of cfg_scenario1 stub_lib]
  have c: "fst (get_price_gcbex cfg_scenario1 stub_lib ?big) = Inr 100"
    by simp
  from h a b c show ?thesis by blast
qed

lemma check_item_exn: "check_item lib asset item = Inl e \<Longrightarrow> is_Exception e"
  by (auto simp: check_item_def split: sum.splits if_splits dest: py_getitem_exn py_float_exn)

lemma check_item_Some:
  "check_item lib asset item = Inr (Some r) \<longleftrightarrow> holds_asset asset item \<and> free_amount lib item = Some r"
  by (auto simp: check_item_def holds_asset_def free_amount_def split: sum.splits if_splits)

lemma check_item_None:
  "check_item lib asset item = Inr None \<Longrightarrow> \<not> holds_asset asset item"
  by (auto simp: check_item_def holds_asset_def split: sum.splits if_splits)

lemma scan_balances_exn: "scan_balances lib asset items = Inl e \<Longrightarrow> is_Exception e"
  by (induction items) (auto split: sum.splits option.splits dest: check_item_exn)

lemma scan_balances_Some:
  "scan_balances lib asset items = Inr (Some r) \<Longrightarrow>
     \<exists>item. find (holds_asset asset) items = Some item \<and> free_amount lib item = Some r"
  by (induction items) (auto split: sum.splits option.splits simp: check_item_Some dest: check_item_None)

lemma read_balance_exn: "fst (read_balance lib asset doc) = Inl e \<Longrightarrow> is_Exception e"
  by (auto simp: read_balance_def act_defs split: sum.splits if_splits prod.splits
      dest: py_contains_exn py_getitem_exn py_iter_exn scan_balances_exn)

lemma read_balance_Some:
  assumes "fst (read_balance lib asset doc) = Inr (Some r)"
  shows "\<exists>item. find (holds_asset asset) (balance_items (Inr doc)) = Some item
           \<and> free_amount lib item = Some r"
proof -
  from assms obtain b items where b: "py_getitem doc ''balances'' = Inr b"
    and items: "py_iter b = Inr items" and scan: "scan_balances lib asset items = Inr (Some r)"
    by (auto simp: read_balance_def act_defs split: sum.splits if_splits prod.splits)
  from b have "balances_field (Inr doc) = Some b"
    by (cases doc) (auto simp: balances_field_def split: option.splits)
  with items have "balance_items (Inr doc) = items"
    by (simp add: balance_items_def)
  with scan_balances_Some [OF scan] show ?thesis by simp
qed

lemma get_balance_gcbex_result:
  assumes "API_SECRET c = Some secret" and "not_interrupted resp"
  shows "fst (get_balance_gcbex c lib ts resp asset) = Inr (balance_try lib asset resp)"
proof (cases resp)
  case (Inl e)
  with assms show ?thesis
    by (simp add: get_balance_gcbex_def sign_gcbex_def balance_try_def not_interrupted_def
        act_defs Let_def)
next
  case (Inr doc)
  obtain r tr where rb: "read_balance lib asset doc = (r, tr)"
    by (cases "read_balance lib asset doc")
  then have "\<And>e. r = Inl e \<Longrightarrow> is_Exception e"
    using read_balance_exn [of lib asset doc] by simp
  with Inr assms rb show ?thesis
    by (auto simp add: get_balance_gcbex_def sign_gcbex_def balance_try_def act_defs Let_def
        split: sum.splits option.splits)
qed

lemma get_balance_mexc_result:
  assumes "API_SECRET c = Some secret" and "not_interrupted resp"
  shows "fst (get_balance_mexc c lib ts resp asset) = Inr (balance_try lib asset resp)"
proof (cases resp)
  case (Inl e)
  with assms show ?thesis
    by (simp add: get_balance_mexc_def sign_mexc_def query_def balance_try_def
        not_interrupted_def act_defs Let_def)
next
  case (Inr doc)
  obtain r tr where rb: "read_balance lib asset doc = (r, tr)"
    by (cases "read_balance lib asset doc")
  then have "\<And>e. r = Inl e \<Longrightarrow> is_Exception e"
    using read_balance_exn [of lib asset doc] by simp
  with Inr assms rb show ?thesis
    by (auto simp add: get_balance_mexc_def sign_mexc_def query_def balance_try_def act_defs
        Let_def split: sum.splits option.splits)
qed

lemma get_balance_result:
  assumes "API_SECRET c = Some secret" and "not_interrupted resp"
  shows "fst (get_balance ex c lib ts resp asset) = Inr (balance_try lib asset resp)"
  using assms by (cases ex) (simp_all add: get_balance_mexc_result get_balance_gcbex_result)

lemma balance_try_nonzero:
  assumes "balance_try lib asset resp \<noteq> 0"
  shows "\<exists>item. find (holds_asset asset) (balance_items resp) = Some item
           \<and> free_amount lib item = Some (balance_try lib asset resp)"
proof (cases resp)
  case (Inl e)
  with assms show ?thesis by (simp add: balance_try_def)
next
  case (Inr doc)
  with assms have "fst (read_balance lib asset doc) = Inr (Some (balance_try lib asset resp))"
    by (auto simp: balance_try_def split: sum.splits option.splits)
  from read_balance_Some [OF this] Inr show ?thesis by simp
qed

text \<open>
  C4: with the secret configured, \<^verbatim>\<open>get_balance\<close> returns a number, and that number is
  0 when the remote call fails, when the response has no balances field, and when no
  listed entry is the one of the asset; a result other than 0 is the free amount, as a
  number, of the first listed entry of the asset.
\<close>

theorem C4_fetch_balance:
  assumes "API_SECRET c = Some secret" and "not_interrupted resp"
  shows "\<exists>r. fst (get_balance ex c lib ts resp asset) = Inr r
     \<and> (isl resp \<longrightarrow> r = 0)
     \<and> (balances_field resp = None \<longrightarrow> r = 0)
     \<and> (find (holds_asset asset) (balance_items resp) = None \<longrightarrow> r = 0)
     \<and> (r \<noteq> 0 \<longrightarrow> (\<exists>item. find (holds_asset asset) (balance_items resp) = Some item
                      \<and> free_amount lib item = Some r))"
proof -
  let ?r = "balance_try lib asset resp"
  have res: "fst (get_balance ex c lib ts resp asset) = Inr ?r"
    using assms by (rule get_balance_result)
  have found: "?r \<noteq> 0 \<longrightarrow> (\<exists>item. find (holds_asset asset) (balance_items resp) = Some item
      \<and> free_amount lib item = Some ?r)"
    using balance_try_nonzero [of lib asset resp] by blast
  have fail: "isl resp \<longrightarrow> ?r = 0"
    by (cases resp) (simp_all add: balance_try_def)
  have absent: "find (holds_asset asset) (balance_items resp) = None \<longrightarrow> ?r = 0"
    using found by auto
  have nofield: "balances_field resp = None \<longrightarrow> ?r = 0"
    using absent by (simp add: balance_items_def)
  show ?thesis
    by (rule exI [of _ ?r]) (use res fail nofield absent found in blast)
qed

theorem C4_fetch_balance_witness:
  "API_SECRET cfg_scenario1 = Some ''secret'' \<and> not_interrupted account_doc
   \<and> fst (get_balance GCBEX cfg_scenario1 stub_lib 1700000000000 account_doc ''ETH'') = Inr (3/2)
   \<and> fst (get_balance MEXC cfg_scenario1 stub_lib 1700000000000 account_doc ''BTC'') = Inr 0"
proof -
  have h1: "API_SECRET cfg_scenario1 = Some ''secret''"
    by (simp add: cfg_scenario1_def)
  have h2: "not_interrupted account_doc"
    by (simp add: not_interrupted_def account_doc_def)
  have items: "balance_items account_doc =
      [PDict [(''asset'', PStr ''ETH''), (''free'', PStr ''1.5'')],
       PDict [(''asset'', PStr ''USDT''), (''free'', PStr ''50'')]]"
    by (simp add: balance_items_def balances_field_def account_doc_def)
  have btc: "find (holds_asset ''BTC'') (balance_items account_doc) = None"
    by (simp add: items holds_asset_def)
  have "balance_try stub_lib ''ETH'' account_doc = 3/2"
    by (simp add: balance_try_def account_doc_def read_balance_def check_item_def act_defs
        stub_lib_def)
  then have eth: "fst (get_balance GCBEX cfg_scenario1 stub_lib 1700000000000 account_doc ''ETH'') = Inr (3/2)"
    by (simp add: get_balance_gcbex_result [OF h1 h2])
  from C4_fetch_balance [OF h1 h2, where ex = MEXC and lib = stub_lib
      and ts = 1700000000000 and asset = "''BTC''"] btc
  have "fst (get_balance MEXC cfg_scenario1 stub_lib 1700000000000 account_doc ''BTC'') = Inr 0"
    by auto
  with h1 h2 eth show ?thesis by simp
qed

section \<open>Signer\<close>

lemma map_insort_key: "map f (insort_key f x xs) = insort (f x) (map f xs)"
  by (induction xs) auto

lemma map_sort_key: "map f (sort_key f xs) = sort (map f xs)"
  by (induction xs) (auto simp: map_insort_key)

lemma query_parts_items:
  assumes "distinct (map fst params)" and "set qs \<subseteq> set params"
  shows "query_parts lib params (map fst qs) = Inr (map (render lib) qs)"
  using assms(2)
proof (induction qs)
  case Nil
  show ?case by simp
next
  case (Cons q qs)
  obtain k v where q: "q = (k, v)" by (cases q)
  with Cons.prems have "(k, v) \<in> set params" by simp
  with assms(1) have "map_of params k = Some v" by (rule map_of_is_SomeI)
  with Cons q show ?case by (simp add: render_def)
qed

lemma query_canonical:
  assumes "distinct (map fst params)"
  shows "query lib params = Inr (canonical_params lib params)"
proof -
  have "sort (map fst params) = map fst (sort_key fst params)"
    by (simp add: map_sort_key)
  moreover have "set (sort_key fst params) \<subseteq> set params" by simp
  ultimately show ?thesis
    using query_parts_items [OF assms, of "sort_key fst params" lib]
    by (simp add: query_def canonical_params_def)
qed

lemma sign_mexc_canonical:
  assumes "API_SECRET c = Some secret" and "distinct (map fst params)"
  shows "sign_mexc c lib params = Inr (hmac_sha256_hex lib secret (canonical_params lib params))"
  using assms by (simp add: sign_mexc_def query_canonical)

text \<open>
  C8: the canonical message is built by one scheme per signer. With the secret configured,
  the header signer returns the keyed hash of timestamp, upper-cased method, path and body
  concatenated in this order (of the first three when the body is left out), and the
  parameter signer returns the keyed hash of the parameters sorted by key, written
  \<^verbatim>\<open>key=value\<close> and joined with \<^verbatim>\<open>&\<close>.
\<close>

theorem C8_canonical_message:
  assumes "API_SECRET c = Some secret" and "distinct (map fst params)"
  shows "sign_gcbex c lib timestamp method path body
           = Inr (hmac_sha256_hex lib secret (canonical_header timestamp method path body))
       \<and> sign_gcbex c lib timestamp method path []
           = Inr (hmac_sha256_hex lib secret (timestamp @ upper method @ path))
       \<and> sign_mexc c lib params
           = Inr (hmac_sha256_hex lib secret (canonical_params lib params))"
  using assms
  by (simp add: sign_gcbex_def message_def canonical_header_def sign_mexc_canonical)

theorem C8_canonical_message_witness:
  "API_SECRET cfg_scenario1 = Some ''secret''
   \<and> distinct (map fst [(''symbol'', PStr ''ETHUSDT''), (''orderId'', PInt 5), (''timestamp'', PInt 17)])
   \<and> sign_gcbex cfg_scenario1 stub_lib ''17'' ''post'' ''/sapi/v2/cancel'' ''{}''
        = Inr ''secret:17POST/sapi/v2/cancel{}''
   \<and> sign_mexc cfg_scenario1 stub_lib
          [(''symbol'', PStr ''ETHUSDT''), (''orderId'', PInt 5), (''timestamp'', PInt 17)]
        = Inr ''secret:orderId=5&symbol=ETHUSDT&timestamp=17''"
proof -
  let ?ps = "[(''symbol'', PStr ''ETHUSDT''), (''orderId'', PInt 5), (''timestamp'', PInt 17)]"
  have h1: "API_SECRET cfg_scenario1 = Some ''secret''"
    by (simp add: cfg_scenario1_def)
  have h2: "distinct (map fst ?ps)" by simp
  have up: "upper ''post'' = ''POST''" by code_simp
  have hdr: "canonical_header ''17'' ''post'' ''/sapi/v2/cancel'' ''{}'' = ''17POST/sapi/v2/cancel{}''"
    by (simp add: canonical_header_def up)
  have srt: "sort_key fst ?ps
      = [(''orderId'', PInt 5), (''symbol'', PStr ''ETHUSDT''), (''timestamp'', PInt 17)]"
    by code_simp
  have five: "str_int 5 = ''5''" and seventeen: "str_int 17 = ''17''" by code_simp+
  have par: "canonical_params stub_lib ?ps = ''orderId=5&symbol=ETHUSDT&timestamp=17''"
    by (simp add: canonical_params_def srt render_def stub_lib_def five seventeen)
  have hm: "hmac_sha256_hex stub_lib key msg = key @ '':'' @ msg" for key msg
    by (simp add: stub_lib_def)
  note inst = C8_canonical_message [OF h1 h2, of stub_lib "''17''" "''post''" "''/sapi/v2/cancel''" "''{}''"]
  have a: "sign_gcbex cfg_scenario1 stub_lib ''17'' ''post'' ''/sapi/v2/cancel'' ''{}''
        = Inr ''secret:17POST/sapi/v2/cancel{}''"
    using inst by (simp add: hdr hm)
  have b: "sign_mexc cfg_scenario1 stub_lib ?ps = Inr ''secret:orderId=5&symbol=ETHUSDT&timestamp=17''"
    using inst by (simp add: par hm)
  from h1 h2 a b show ?thesis by blast
qed

lemma join_Cons: "join sep (y # zs) = y @ concat (map (\<lambda>z. sep @ z) zs)"
  by (induction zs arbitrary: y) auto

lemma join_split:
  "join sep (xs @ y # zs) = concat (map (\<lambda>x. x @ sep) xs) @ y @ concat (map (\<lambda>z. sep @ z) zs)"
proof (induction xs)
  case Nil
  show ?case by (simp add: join_Cons)
next
  case (Cons x xs)
  obtain w ws where "xs @ y # zs = w # ws" by (cases "xs @ y # zs") auto
  with Cons show ?case by simp
qed

lemma insort_key_map:
  assumes "\<And>x. f (g x) = f x"
  shows "insort_key f (g x) (map g ys) = map g (insort_key f x ys)"
  by (induction ys) (auto simp: assms)

lemma sort_key_map:
  assumes "\<And>x. f (g x) = f x"
  shows "sort_key f (map g xs) = map g (sort_key f xs)"
  by (induction xs) (simp_all add: insort_key_map assms)

lemma canonical_params_dict_set:
  assumes d: "distinct (map fst params)" and k: "k \<in> fst ` set params"
  shows "\<exists>A B. \<forall>v. canonical_params lib (dict_set k v params) = A @ format_value lib v @ B"
proof -
  let ?g = "\<lambda>v kv. if fst kv = k then (k, v) else kv"
  from k obtain v0 where "(k, v0) \<in> set (sort_key fst params)" by auto
  then have "\<exists>as bs. sort_key fst params = as @ (k, v0) # bs" by (rule split_list)
  then obtain as bs where split: "sort_key fst params = as @ (k, v0) # bs" by blast
  have "distinct (map fst (sort_key fst params))"
    using d by (simp add: map_sort_key)
  with split have notin: "k \<notin> fst ` set as" "k \<notin> fst ` set bs" by auto
  have ids: "map (?g v) as = as" "map (?g v) bs = bs" for v
    by (rule map_idI, use notin in force)+
  have sorted_upd: "sort_key fst (dict_set k v params) = as @ (k, v) # bs" for v
  proof -
    have "sort_key fst (map (?g v) params) = map (?g v) (sort_key fst params)"
      by (rule sort_key_map) simp
    with k split ids [of v] show ?thesis by (simp add: dict_set_def)
  qed
  let ?A = "concat (map (\<lambda>x. x @ ''&'') (map (render lib) as)) @ k @ ''=''"
  let ?B = "concat (map (\<lambda>z. ''&'' @ z) (map (render lib) bs))"
  have "canonical_params lib (dict_set k v params) = ?A @ format_value lib v @ ?B" for v
    unfolding canonical_params_def sorted_upd
    using join_split [of "''&''" "map (render lib) as" "render lib (k, v)" "map (render lib) bs"]
    by (simp add: render_def)
  then show ?thesis by blast
qed

lemma canonical_params_change:
  assumes d: "distinct (map fst params)" and k: "k \<in> fst ` set params"
  shows "(canonical_params lib (dict_set k v params) = canonical_params lib (dict_set k v' params))
           = (format_value lib v = format_value lib v')"
proof -
  from canonical_params_dict_set [OF d k, of lib] obtain A B
    where "\<And>v. canonical_params lib (dict_set k v params) = A @ format_value lib v @ B" by blast
  then show ?thesis by simp
qed

lemma keys_dict_set:
  assumes "k \<in> fst ` set params"
  shows "map fst (dict_set k v params) = map fst params"
proof -
  have "map fst (map (\<lambda>kv. if fst kv = k then (k, v) else kv) params) = map fst params"
    by (induction params) simp_all
  with assms show ?thesis by (simp add: dict_set_def)
qed

lemma message_changes:
  "(message ts m p b = message ts' m p b) = (ts = ts')"
  "(message ts m p b = message ts m p' b) = (p = p')"
  "(message ts m p b = message ts m p b') = (b = b')"
  "(message ts m p b = message ts m' p b) = (upper m = upper m')"
  by (simp_all add: message_def)

text \<open>
  C3 (as stated): the signer is deterministic, and changing any single input changes the
  signature. The second half fails for the method of the header signer, which is
  upper-cased before it enters the message: \<^verbatim>\<open>get\<close> and \<^verbatim>\<open>GET\<close> give the same
  canonical message, hence the same signature under any keyed hash.
\<close>

theorem C3_counterexample:
  "''get'' \<noteq> ''GET''
   \<and> message ''1700000000000'' ''get'' ''/sapi/v1/account'' []
       = message ''1700000000000'' ''GET'' ''/sapi/v1/account'' []
   \<and> sign_gcbex cfg_scenario1 stub_lib ''1700000000000'' ''get'' ''/sapi/v1/account'' []
       = sign_gcbex cfg_scenario1 stub_lib ''1700000000000'' ''GET'' ''/sapi/v1/account'' []"
proof -
  have "upper ''get'' = upper ''GET''" by code_simp
  then show ?thesis by (simp add: sign_gcbex_def message_def cfg_scenario1_def)
qed

text \<open>
  C3 (amended): with the secret configured, two calls of the header signer return the same
  signature exactly when their canonical messages are equal or the keyed hash collides on
  them; changing the timestamp, the path or the body alone changes the canonical message,
  and changing the method alone changes it exactly when the upper-cased methods differ.
  For the parameter signer, replacing the value of one parameter leaves the signature
  unchanged exactly when the two values are formatted alike or the keyed hash collides on
  the two messages.
\<close>

theorem C3_signature_changes:
  assumes "API_SECRET c = Some secret" and "distinct (map fst params)"
    and "k \<in> fst ` set params"
  shows "((sign_gcbex c lib ts m p b = sign_gcbex c lib ts' m' p' b')
            = (message ts m p b = message ts' m' p' b'
               \<or> collides lib secret (message ts m p b) (message ts' m' p' b')))
       \<and> (message ts m p b = message ts' m p b) = (ts = ts')
       \<and> (message ts m p b = message ts m p' b) = (p = p')
       \<and> (message ts m p b = message ts m p b') = (b = b')
       \<and> (message ts m p b = message ts m' p b) = (upper m = upper m')
       \<and> ((sign_mexc c lib (dict_set k v params) = sign_mexc c lib (dict_set k v' params))
            = (format_value lib v = format_value lib v'
               \<or> collides lib secret (canonical_params lib (dict_set k v params))
                    (canonical_params lib (dict_set k v' params))))"
proof -
  have hdr: "(sign_gcbex c lib ts m p b = sign_gcbex c lib ts' m' p' b')
      = (message ts m p b = message ts' m' p' b'
         \<or> collides lib secret (message ts m p b) (message ts' m' p' b'))"
    using assms(1) by (auto simp: sign_gcbex_def collides_def)
  have d: "distinct (map fst (dict_set k w params))" for w
    using assms(2,3) by (simp add: keys_dict_set)
  have par: "(sign_mexc c lib (dict_set k v params) = sign_mexc c lib (dict_set k v' params))
      = (format_value lib v = format_value lib v'
         \<or> collides lib secret (canonical_params lib (dict_set k v params))
              (canonical_params lib (dict_set k v' params)))"
    using canonical_params_change [OF assms(2,3), of lib v v']
    by (auto simp: sign_mexc_canonical [OF assms(1) d] collides_def)
  from hdr par show ?thesis by (simp add: message_changes)
qed

theorem C3_signature_changes_witness:
  "API_SECRET cfg_scenario1 = Some ''secret''
   \<and> distinct (map fst [(''symbol'', PStr ''ETHUSDT''), (''timestamp'', PInt 17)])
   \<and> ''timestamp'' \<in> fst ` set [(''symbol'', PStr ''ETHUSDT''), (''timestamp'', PInt 17)]
   \<and> sign_gcbex cfg_scenario1 stub_lib ''17'' ''GET'' ''/sapi/v1/account'' []
       \<noteq> sign_gcbex cfg_scenario1 stub_lib ''18'' ''GET'' ''/sapi/v1/account'' []"
proof -
  let ?ps = "[(''symbol'', PStr ''ETHUSDT''), (''timestamp'', PInt 17)]"
  have h1: "API_SECRET cfg_scenario1 = Some ''secret''"
    by (simp add: cfg_scenario1_def)
  have h2: "distinct (map fst ?ps)" by simp
  have h3: "''timestamp'' \<in> fst ` set ?ps" by simp
  have nc: "\<not> collides stub_lib ''secret'' x y" for x y
    by (auto simp: collides_def stub_lib_def)
  have "message ''17'' ''GET'' ''/sapi/v1/account'' [] \<noteq> message ''18'' ''GET'' ''/sapi/v1/account'' []"
    by (simp add: message_def)
  with C3_signature_changes [OF h1 h2 h3, of stub_lib "''17''" "''GET''" "''/sapi/v1/account''" "[]"
      "''18''" "''GET''" "''/sapi/v1/account''" "[]"] nc
  have "sign_gcbex cfg_scenario1 stub_lib ''17'' ''GET'' ''/sapi/v1/account'' []
       \<noteq> sign_gcbex cfg_scenario1 stub_lib ''18'' ''GET'' ''/sapi/v1/account'' []"
    by blast
  with h1 h2 h3 show ?thesis by blast
qed

section \<open>Traces\<close>

lemma andthen_lift_Inr: "andthen (lift (Inr x)) f = f x"
  by (cases "f x") (simp add: act_defs)

lemma andthen_lift_Inl: "andthen (lift (Inl e)) f = (Inl e, [])"
  by (simp add: act_defs)

lemma andthen_ret: "andthen (ret x) f = f x"
  by (cases "f x") (simp add: act_defs)

lemma andthen_emit: "andthen (emit ev) f = (fst (f ()), ev # snd (f ()))"
  by (cases "f ()") (simp add: act_defs)

lemma try_except_prefix: "\<exists>tr'. snd (try_except m h) = snd m @ tr'"
  by (cases m) (auto simp: try_except_def split: sum.splits prod.splits)

section \<open>The listing request of the header variant\<close>

text \<open>
  C10: in the GCBEX file the request that lists the open orders is the first event of
  \<^verbatim>\<open>cancel_all_orders\<close>; its signature is the keyed hash of the timestamp, \<^verbatim>\<open>GET\<close> and
  the bare path \<^verbatim>\<open>/sapi/v2/openOrders\<close>, while the symbol only appears in the URL: two
  runs that differ in the symbol alone send the same signature to different URLs.
\<close>

theorem C10_listing_signature:
  assumes "API_SECRET c = Some secret"
  shows "\<exists>r1 r2.
      list_request_gcbex (c\<lparr>SYMBOL := s1\<rparr>) lib (orders_ts en) = Inr r1
    \<and> list_request_gcbex (c\<lparr>SYMBOL := s2\<rparr>) lib (orders_ts en) = Inr r2
    \<and> take 1 (snd (cancel_all_orders_gcbex (c\<lparr>SYMBOL := s1\<rparr>) lib en)) = [Http ListOrders r1]
    \<and> take 1 (snd (cancel_all_orders_gcbex (c\<lparr>SYMBOL := s2\<rparr>) lib en)) = [Http ListOrders r2]
    \<and> req_signature r1
        = Some (hmac_sha256_hex lib secret (str_int (orders_ts en) @ ''GET'' @ ''/sapi/v2/openOrders''))
    \<and> req_signature r2 = req_signature r1
    \<and> req_url r1 = API_BASE c @ ''/sapi/v2/openOrders?symbol='' @ s1
    \<and> req_url r2 = API_BASE c @ ''/sapi/v2/openOrders?symbol='' @ s2"
proof -
  let ?sig = "hmac_sha256_hex lib secret (str_int (orders_ts en) @ ''GET'' @ ''/sapi/v2/openOrders'')"
  let ?req = "\<lambda>s. \<lparr>req_method = ''GET'', req_url = API_BASE c @ ''/sapi/v2/openOrders?symbol='' @ s,
      req_headers = [(''X-CH-APIKEY'', API_KEY c), (''X-CH-TS'', str_int (orders_ts en)),
                     (''X-CH-SIGN'', ?sig)],
      req_params = [], req_data = None\<rparr>"
  have up: "upper ''GET'' = ''GET''" by code_simp
  have req: "list_request_gcbex (c\<lparr>SYMBOL := s\<rparr>) lib (orders_ts en) = Inr (?req s)" for s
    using assms by (simp add: list_request_gcbex_def sign_gcbex_def message_def up auth_headers_def Let_def)
  have first: "take 1 (snd (cancel_all_orders_gcbex (c\<lparr>SYMBOL := s\<rparr>) lib en))
      = [Http ListOrders (?req s)]" for s
  proof -
    let ?m = "andthen (emit (Http ListOrders (?req s))) (\<lambda>_.
        andthen (lift (orders_resp en)) (\<lambda>orders.
        andthen (lift (if isinstance_dict orders then py_contains ''code'' orders else Inr False))
          (\<lambda>is_error.
          if is_error then logging WARNING ''Open Orders Error''
          else if \<not> isinstance_list orders then logging WARNING ''Unexpected open orders response''
          else andthen (lift (py_iter orders))
                 (\<lambda>items. for_loop (cancel_order_gcbex (c\<lparr>SYMBOL := s\<rparr>) lib en) 0 items))))"
    have "cancel_all_orders_gcbex (c\<lparr>SYMBOL := s\<rparr>) lib en
        = try_except ?m (\<lambda>e. logging ERROR ''Error canceling orders'')"
      by (simp add: cancel_all_orders_gcbex_def req andthen_lift_Inr)
    moreover obtain tr' where "snd (try_except ?m (\<lambda>e. logging ERROR ''Error canceling orders''))
        = snd ?m @ tr'"
      using try_except_prefix by blast
    moreover have "\<exists>tr. snd ?m = Http ListOrders (?req s) # tr"
      by (simp add: andthen_emit)
    ultimately show ?thesis by auto
  qed
  show ?thesis
  proof (intro exI conjI)
    show "list_request_gcbex (c\<lparr>SYMBOL := s1\<rparr>) lib (orders_ts en) = Inr (?req s1)"
      by (rule req)
    show "list_request_gcbex (c\<lparr>SYMBOL := s2\<rparr>) lib (orders_ts en) = Inr (?req s2)"
      by (rule req)
    show "take 1 (snd (cancel_all_orders_gcbex (c\<lparr>SYMBOL := s1\<rparr>) lib en))
        = [Http ListOrders (?req s1)]"
      by (rule first)
    show "take 1 (snd (cancel_all_orders_gcbex (c\<lparr>SYMBOL := s2\<rparr>) lib en))
        = [Http ListOrders (?req s2)]"
      by (rule first)
    show "req_signature (?req s1) = Some ?sig"
      by (simp add: req_signature_def)
    show "req_signature (?req s2) = req_signature (?req s1)"
      by (simp add: req_signature_def)
    show "req_url (?req s1) = API_BASE c @ ''/sapi/v2/openOrders?symbol='' @ s1"
      by simp
    show "req_url (?req s2) = API_BASE c @ ''/sapi/v2/openOrders?symbol='' @ s2"
      by simp
  qed
qed

theorem C10_listing_signature_witness:
  "API_SECRET cfg_scenario1 = Some ''secret''
   \<and> (\<exists>r1 r2.
      list_request_gcbex (cfg_scenario1\<lparr>SYMBOL := ''ETHUSDT''\<rparr>) stub_lib (orders_ts env_scenario3) = Inr r1
    \<and> list_request_gcbex (cfg_scenario1\<lparr>SYMBOL := ''BTCUSDT''\<rparr>) stub_lib (orders_ts env_scenario3) = Inr r2
    \<and> req_signature r2 = req_signature r1
    \<and> req_url r1 = ''https://api.example/sapi/v2/openOrders?symbol=ETHUSDT''
    \<and> req_url r2 = ''https://api.example/sapi/v2/openOrders?symbol=BTCUSDT'')"
proof -
  have h: "API_SECRET cfg_scenario1 = Some ''secret''"
    by (simp add: cfg_scenario1_def)
  have base: "API_BASE cfg_scenario1 = ''https://api.example''"
    by (simp add: cfg_scenario1_def)
  from C10_listing_signature [OF h, of "''ETHUSDT''" stub_lib env_scenario3 "''BTCUSDT''"]
  obtain r1 r2 where
      "list_request_gcbex (cfg_scenario1\<lparr>SYMBOL := ''ETHUSDT''\<rparr>) stub_lib (orders_ts env_scenario3) = Inr r1"
      "list_request_gcbex (cfg_scenario1\<lparr>SYMBOL := ''BTCUSDT''\<rparr>) stub_lib (orders_ts env_scenario3) = Inr r2"
      "req_signature r2 = req_signature r1"
      "req_url r1 = API_BASE cfg_scenario1 @ ''/sapi/v2/openOrders?symbol='' @ ''ETHUSDT''"
      "req_url r2 = API_BASE cfg_scenario1 @ ''/sapi/v2/openOrders?symbol='' @ ''BTCUSDT''"
    by blast
  then show ?thesis using h by (simp add: base)
qed

section \<open>Cancelling the open orders\<close>

lemma cancel_attempts_append:
  "cancel_attempts (xs @ ys) = cancel_attempts xs @ cancel_attempts ys"
  by (induction xs rule: cancel_attempts.induct) auto

lemma order_id_of_getitem: "order_id_of order = Some oid \<Longrightarrow> py_getitem order ''orderId'' = Inr oid"
  by (auto simp: order_id_of_def split: sum.splits)

lemma is_object_cases: "is_object r \<Longrightarrow> \<exists>kvs. r = Inr (PDict kvs)"
  by (cases r rule: is_object.cases) auto

lemma cancel_order_gcbex_object:
  assumes "API_SECRET c = Some secret" and "order_id_of order = Some oid"
    and "cancel_completes GCBEX en k"
  shows "fst (cancel_order_gcbex c lib en k order) = Inr ()
       \<and> cancel_attempts (snd (cancel_order_gcbex c lib en k order)) = [oid]"
proof -
  from assms(3) have sent: "cancel_sent en k = None" and "is_object (cancel_resp en k)"
    by simp_all
  then obtain kvs where r: "cancel_resp en k = Inr (PDict kvs)"
    using is_object_cases by blast
  show ?thesis
    using assms(1) r sent order_id_of_getitem [OF assms(2)]
    by (auto simp: cancel_order_gcbex_def sign_gcbex_def act_defs Let_def in_keys_iff
        split: option.splits)
qed

lemma cancel_order_gcbex_raises:
  assumes "API_SECRET c = Some secret" and "order_id_of order = Some oid"
    and "cancel_raises GCBEX en k = Some e"
  shows "fst (cancel_order_gcbex c lib en k order) = Inl e
       \<and> cancel_attempts (snd (cancel_order_gcbex c lib en k order)) = [oid]"
proof (cases "cancel_sent en k")
  case None
  with assms(3) have "cancel_resp en k = Inl e"
    by (auto split: sum.splits)
  with None assms(1) order_id_of_getitem [OF assms(2)] show ?thesis
    by (simp add: cancel_order_gcbex_def sign_gcbex_def act_defs Let_def)
next
  case (Some e')
  with assms(3) have "e' = e" by simp
  with Some assms(1) order_id_of_getitem [OF assms(2)] show ?thesis
    by (simp add: cancel_order_gcbex_def sign_gcbex_def act_defs Let_def)
qed

lemma sign_mexc_cancel:
  assumes "API_SECRET c = Some secret"
  shows "\<exists>sg. sign_mexc c lib [(''symbol'', s), (''orderId'', oid), (''timestamp'', t)] = Inr sg"
  using sign_mexc_canonical [OF assms, of "[(''symbol'', s), (''orderId'', oid), (''timestamp'', t)]" lib]
  by simp

lemma cancel_order_mexc_returns:
  assumes "API_SECRET c = Some secret" and "order_id_of order = Some oid"
    and "has_side order" and "cancel_completes MEXC en k"
  shows "fst (cancel_order_mexc c lib en k order) = Inr ()
       \<and> cancel_attempts (snd (cancel_order_mexc c lib en k order)) = [oid]"
proof -
  obtain sg where sg: "sign_mexc c lib [(''symbol'', PStr (SYMBOL c)), (''orderId'', oid),
      (''timestamp'', PInt (cancel_ts en k))] = Inr sg"
    using sign_mexc_cancel [OF assms(1)] by blast
  from assms(3) obtain sd where sd: "py_getitem order ''side'' = Inr sd"
    by (auto simp: has_side_def split: sum.splits)
  from assms(4) have sent: "cancel_sent en k = None" by simp
  show ?thesis
    using sg sd sent order_id_of_getitem [OF assms(2)]
    by (simp add: cancel_order_mexc_def act_defs Let_def)
qed

lemma cancel_order_mexc_raises:
  assumes "API_SECRET c = Some secret" and "order_id_of order = Some oid"
    and "cancel_raises MEXC en k = Some e"
  shows "fst (cancel_order_mexc c lib en k order) = Inl e
       \<and> cancel_attempts (snd (cancel_order_mexc c lib en k order)) = [oid]"
proof -
  obtain sg where sg: "sign_mexc c lib [(''symbol'', PStr (SYMBOL c)), (''orderId'', oid),
      (''timestamp'', PInt (cancel_ts en k))] = Inr sg"
    using sign_mexc_cancel [OF assms(1)] by blast
  from assms(3) have sent: "cancel_sent en k = Some e" by simp
  show ?thesis
    using sg sent order_id_of_getitem [OF assms(2)]
    by (simp add: cancel_order_mexc_def act_defs Let_def)
qed

lemma for_loop_all:
  assumes step: "\<And>k order oid. order_id_of order = Some oid \<Longrightarrow> good order \<Longrightarrow> ok k \<Longrightarrow>
      fst (body k order) = Inr () \<and> cancel_attempts (snd (body k order)) = [oid]"
  shows "map order_id_of orders = map Some ids \<Longrightarrow> list_all good orders \<Longrightarrow>
         (\<And>j. j < length orders \<Longrightarrow> ok (k0 + j)) \<Longrightarrow>
         fst (for_loop body k0 orders) = Inr ()
           \<and> cancel_attempts (snd (for_loop body k0 orders)) = ids"
proof (induction orders arbitrary: ids k0)
  case Nil
  then show ?case by (simp add: ret_def)
next
  case (Cons order rest)
  from Cons.prems(1) obtain oid ids' where ids: "ids = oid # ids'"
    and oid: "order_id_of order = Some oid" and rest: "map order_id_of rest = map Some ids'"
    by (cases ids) auto
  from Cons.prems(2) have good: "good order" "list_all good rest" by simp_all
  have "ok k0" using Cons.prems(3) [of 0] by simp
  from step [OF oid good(1) this]
  obtain tr where one: "body k0 order = (Inr (), tr)" and tr: "cancel_attempts tr = [oid]"
    by (cases "body k0 order") auto
  have "ok (Suc k0 + j)" if "j < length rest" for j
    using Cons.prems(3) [of "Suc j"] that by simp
  from Cons.IH [OF rest good(2) this]
  obtain tr' where more: "for_loop body (Suc k0) rest = (Inr (), tr')"
    and tr': "cancel_attempts tr' = ids'"
    by (cases "for_loop body (Suc k0) rest") auto
  show ?case by (simp add: one more ids tr tr' cancel_attempts_append)
qed

lemma for_loop_abort:
  assumes step: "\<And>k order oid. order_id_of order = Some oid \<Longrightarrow> good order \<Longrightarrow> ok k \<Longrightarrow>
      fst (body k order) = Inr () \<and> cancel_attempts (snd (body k order)) = [oid]"
    and fail: "\<And>k order oid. order_id_of order = Some oid \<Longrightarrow> bad k \<Longrightarrow>
      fst (body k order) = Inl e \<and> cancel_attempts (snd (body k order)) = [oid]"
  shows "map order_id_of orders = map Some ids \<Longrightarrow> list_all good orders \<Longrightarrow>
         k < length orders \<Longrightarrow> (\<And>j. j < k \<Longrightarrow> ok (k0 + j)) \<Longrightarrow> bad (k0 + k) \<Longrightarrow>
         fst (for_loop body k0 orders) = Inl e
           \<and> cancel_attempts (snd (for_loop body k0 orders)) = take (Suc k) ids"
proof (induction orders arbitrary: ids k k0)
  case Nil
  then show ?case by simp
next
  case (Cons order rest)
  from Cons.prems(1) obtain oid ids' where ids: "ids = oid # ids'"
    and oid: "order_id_of order = Some oid" and rest: "map order_id_of rest = map Some ids'"
    by (cases ids) auto
  from Cons.prems(2) have good: "good order" "list_all good rest" by simp_all
  show ?case
  proof (cases k)
    case 0
    with Cons.prems(5) have "bad k0" by simp
    from fail [OF oid this]
    obtain tr where "body k0 order = (Inl e, tr)" and "cancel_attempts tr = [oid]"
      by (cases "body k0 order") auto
    with 0 ids show ?thesis by simp
  next
    case (Suc k')
    have "ok k0" using Cons.prems(4) [of 0] Suc by simp
    from step [OF oid good(1) this]
    obtain tr where one: "body k0 order = (Inr (), tr)" and tr: "cancel_attempts tr = [oid]"
      by (cases "body k0 order") auto
    have a: "k' < length rest" using Cons.prems(3) Suc by simp
    have b: "ok (Suc k0 + j)" if "j < k'" for j
      using Cons.prems(4) [of "Suc j"] that Suc by simp
    have c: "bad (Suc k0 + k')" using Cons.prems(5) Suc by simp
    from Cons.IH [OF rest good(2) a b c]
    obtain tr' where more: "for_loop body (Suc k0) rest = (Inl e, tr')"
      and tr': "cancel_attempts tr' = take (Suc k') ids'"
      by (cases "for_loop body (Suc k0) rest") auto
    show ?thesis by (simp add: one more ids tr tr' Suc cancel_attempts_append)
  qed
qed

lemma cancel_all_orders_gcbex_trace:
  assumes "API_SECRET c = Some secret" and "orders_resp en = Inr (PList orders)"
    and "for_loop (cancel_order_gcbex c lib en) 0 orders = (r, tr)"
  shows "cancel_attempts (snd (cancel_all_orders_gcbex c lib en)) = cancel_attempts tr
       \<and> (not_interrupted r \<longrightarrow> fst (cancel_all_orders_gcbex c lib en) = Inr ())"
  using assms
  by (auto simp: cancel_all_orders_gcbex_def list_request_gcbex_def sign_gcbex_def act_defs
      Let_def cancel_attempts_append not_interrupted_def split: sum.splits)

lemma cancel_all_orders_mexc_trace:
  assumes "API_SECRET c = Some secret" and "orders_resp en = Inr (PList orders)"
    and "for_loop (cancel_order_mexc c lib en) 0 orders = (r, tr)"
  shows "cancel_attempts (snd (cancel_all_orders_mexc c lib en)) = cancel_attempts tr
       \<and> (not_interrupted r \<longrightarrow> fst (cancel_all_orders_mexc c lib en) = Inr ())"
proof -
  obtain sg where sg: "sign_mexc c lib [(''symbol'', PStr (SYMBOL c)),
      (''timestamp'', PInt (orders_ts en))] = Inr sg"
    using sign_mexc_canonical [OF assms(1), of "[(''symbol'', PStr (SYMBOL c)),
      (''timestamp'', PInt (orders_ts en))]" lib] by simp
  show ?thesis
    using assms(2,3) sg
    by (auto simp: cancel_all_orders_mexc_def act_defs
      Let_def cancel_attempts_append not_interrupted_def split: sum.splits)
qed


lemma cancel_all_orders_complete:
  assumes secret: "API_SECRET c = Some secret"
    and listing: "orders_resp en = Inr (PList orders)"
    and ids: "map order_id_of orders = map Some ids"
    and sides: "list_all has_side orders"
    and ok: "\<And>j. j < length orders \<Longrightarrow> cancel_completes ex en j"
  shows "cancel_attempts (snd (cancel_all_orders ex c lib en)) = ids
       \<and> fst (cancel_all_orders ex c lib en) = Inr ()"
proof (cases ex)
  case GCBEX
  let ?body = "cancel_order_gcbex c lib en"
  have "fst (for_loop ?body 0 orders) = Inr () \<and> cancel_attempts (snd (for_loop ?body 0 orders)) = ids"
    by (rule for_loop_all [where good = has_side and ok = "\<lambda>k. cancel_completes GCBEX en k"])
      (use ids sides ok GCBEX in \<open>simp_all add: cancel_order_gcbex_object [OF secret]\<close>)
  then obtain tr where "for_loop ?body 0 orders = (Inr (), tr)" and "cancel_attempts tr = ids"
    by (cases "for_loop ?body 0 orders") auto
  with cancel_all_orders_gcbex_trace [OF secret listing this(1)] GCBEX show ?thesis
    by (simp add: not_interrupted_def)
next
  case MEXC
  let ?body = "cancel_order_mexc c lib en"
  have "fst (for_loop ?body 0 orders) = Inr () \<and> cancel_attempts (snd (for_loop ?body 0 orders)) = ids"
    by (rule for_loop_all [where good = has_side and ok = "\<lambda>k. cancel_completes MEXC en k"])
      (use ids sides ok MEXC in \<open>simp_all add: cancel_order_mexc_returns [OF secret]\<close>)
  then obtain tr where "for_loop ?body 0 orders = (Inr (), tr)" and "cancel_attempts tr = ids"
    by (cases "for_loop ?body 0 orders") auto
  with cancel_all_orders_mexc_trace [OF secret listing this(1)] MEXC show ?thesis
    by (simp add: not_interrupted_def)
qed

lemma cancel_all_orders_aborted:
  assumes secret: "API_SECRET c = Some secret"
    and listing: "orders_resp en = Inr (PList orders)"
    and ids: "map order_id_of orders = map Some ids"
    and sides: "list_all has_side orders"
    and k: "k < length orders"
    and ok: "\<And>j. j < k \<Longrightarrow> cancel_completes ex en j"
    and bad: "cancel_raises ex en k = Some e"
  shows "cancel_attempts (snd (cancel_all_orders ex c lib en)) = take (Suc k) ids
       \<and> (is_Exception e \<longrightarrow> fst (cancel_all_orders ex c lib en) = Inr ())"
proof (cases ex)
  case GCBEX
  let ?body = "cancel_order_gcbex c lib en"
  have "fst (for_loop ?body 0 orders) = Inl e
      \<and> cancel_attempts (snd (for_loop ?body 0 orders)) = take (Suc k) ids"
    by (rule for_loop_abort [where good = has_side and ok = "\<lambda>k. cancel_completes GCBEX en k"
          and bad = "\<lambda>k. cancel_raises GCBEX en k = Some e"])
      (use ids sides ok bad k GCBEX in \<open>simp_all add: cancel_order_gcbex_object [OF secret]
          cancel_order_gcbex_raises [OF secret]\<close>)
  then obtain tr where "for_loop ?body 0 orders = (Inl e, tr)"
    and "cancel_attempts tr = take (Suc k) ids"
    by (cases "for_loop ?body 0 orders") auto
  with cancel_all_orders_gcbex_trace [OF secret listing this(1)] GCBEX show ?thesis
    by (simp add: not_interrupted_def)
next
  case MEXC
  let ?body = "cancel_order_mexc c lib en"
  have "fst (for_loop ?body 0 orders) = Inl e
      \<and> cancel_attempts (snd (for_loop ?body 0 orders)) = take (Suc k) ids"
    by (rule for_loop_abort [where good = has_side and ok = "\<lambda>k. cancel_completes MEXC en k"
          and bad = "\<lambda>k. cancel_raises MEXC en k = Some e"])
      (use ids sides ok bad k MEXC in \<open>simp_all add: cancel_order_mexc_returns [OF secret]
          cancel_order_mexc_raises [OF secret]\<close>)
  then obtain tr where "for_loop ?body 0 orders = (Inl e, tr)"
    and "cancel_attempts tr = take (Suc k) ids"
    by (cases "for_loop ?body 0 orders") auto
  with cancel_all_orders_mexc_trace [OF secret listing this(1)] MEXC show ?thesis
    by (simp add: not_interrupted_def)
qed

lemma example_orders:
  "orders_resp env_scenario3 = Inr (PList [PDict [(''orderId'', PInt 1), (''side'', PStr ''BUY'')],
                 PDict [(''orderId'', PInt 2), (''side'', PStr ''SELL'')]])"
  "orders_resp env_cancel_fails = Inr (PList [PDict [(''orderId'', PInt 1), (''side'', PStr ''BUY'')],
                 PDict [(''orderId'', PInt 2), (''side'', PStr ''SELL'')]])"
  "map order_id_of [PDict [(''orderId'', PInt 1), (''side'', PStr ''BUY'')],
                 PDict [(''orderId'', PInt 2), (''side'', PStr ''SELL'')]] = map Some [PInt 1, PInt 2]"
  "list_all has_side [PDict [(''orderId'', PInt 1), (''side'', PStr ''BUY'')],
                 PDict [(''orderId'', PInt 2), (''side'', PStr ''SELL'')]]"
  by (simp_all add: env_scenario3_def env_cancel_fails_def open_orders_doc_def order_id_of_def
      has_side_def)

text \<open>
  C2 (as stated): when the cancel request of one listed order fails, by a transport error
  or by an error-shaped response, the cancel requests of all other orders are still
  attempted. This fails for a transport error: the loop over the orders runs inside the one
  \<^verbatim>\<open>try\<close> block of \<^verbatim>\<open>cancel_all_orders\<close>, so with two open orders and a first cancel
  request that raises, only the first order is attempted, in both files.
\<close>

theorem C2_counterexample:
  "orders_resp env_cancel_fails = open_orders_doc
   \<and> cancel_sent env_cancel_fails 0 = Some RequestException
   \<and> cancel_attempts (snd (cancel_all_orders GCBEX cfg_scenario1 stub_lib env_cancel_fails)) = [PInt 1]
   \<and> cancel_attempts (snd (cancel_all_orders MEXC cfg_scenario1 stub_lib env_cancel_fails)) = [PInt 1]"
proof -
  have h: "API_SECRET cfg_scenario1 = Some ''secret''"
    by (simp add: cfg_scenario1_def)
  have sent: "cancel_sent env_cancel_fails 0 = Some RequestException"
    by (simp add: env_cancel_fails_def)
  have bad: "cancel_raises ex env_cancel_fails 0 = Some RequestException" for ex
    by (cases ex) (simp_all add: sent)
  have eq: "orders_resp env_cancel_fails = open_orders_doc"
    by (simp add: env_cancel_fails_def env_scenario3_def)
  have att: "cancel_attempts (snd (cancel_all_orders ex cfg_scenario1 stub_lib env_cancel_fails))
      = [PInt 1]" for ex
    using cancel_all_orders_aborted [OF h example_orders(2) example_orders(3) example_orders(4) _ _ bad,
        where lib = stub_lib]
    by simp
  from eq sent att [of GCBEX] att [of MEXC] show ?thesis by blast
qed

text \<open>
  C2 (amended): given the secret and a listing of N open orders, each with an
  \<^verbatim>\<open>orderId\<close> and a \<^verbatim>\<open>side\<close>. If every cancel request completes, all N orders are
  attempted, in order: in \<^verbatim>\<open>src/mmbot.py\<close> a request completes when it returns, whatever
  the response (error-shaped or undecodable); in the GCBEX file when it returns and the
  response is a JSON object, error-shaped or not. If the cancel request of order k leaves
  the loop with an exception (in both files one raised by the request itself, in the GCBEX
  file also one raised by decoding the response) and the earlier ones completed, exactly
  the orders up to and including k are attempted, and an exception that
  \<^verbatim>\<open>except Exception\<close> catches does not leave \<^verbatim>\<open>cancel_all_orders\<close>.
\<close>

theorem C2_cancel_all_orders:
  assumes "API_SECRET c = Some secret"
    and "orders_resp en = Inr (PList orders)"
    and "map order_id_of orders = map Some ids"
    and "list_all has_side orders"
  shows "((\<forall>j<length orders. cancel_completes ex en j) \<longrightarrow>
            cancel_attempts (snd (cancel_all_orders ex c lib en)) = ids
            \<and> fst (cancel_all_orders ex c lib en) = Inr ())
       \<and> (\<forall>k e. k < length orders \<and> (\<forall>j<k. cancel_completes ex en j)
                 \<and> cancel_raises ex en k = Some e \<longrightarrow>
            cancel_attempts (snd (cancel_all_orders ex c lib en)) = take (Suc k) ids
            \<and> (is_Exception e \<longrightarrow> fst (cancel_all_orders ex c lib en) = Inr ()))"
  using cancel_all_orders_complete [OF assms] cancel_all_orders_aborted [OF assms]
  by blast

theorem C2_cancel_all_orders_witness:
  "API_SECRET cfg_scenario1 = Some ''secret''
   \<and> orders_resp env_scenario3 = open_orders_doc
   \<and> cancel_attempts (snd (cancel_all_orders GCBEX cfg_scenario1 stub_lib env_scenario3))
       = [PInt 1, PInt 2]
   \<and> cancel_attempts (snd (cancel_all_orders MEXC
         cfg_scenario1 stub_lib (env_scenario3\<lparr>cancel_resp := \<lambda>k. Inl JSONDecodeError\<rparr>)))
       = [PInt 1, PInt 2]"
proof -
  let ?orders = "[PDict [(''orderId'', PInt 1), (''side'', PStr ''BUY'')],
                 PDict [(''orderId'', PInt 2), (''side'', PStr ''SELL'')]]"
  let ?en = "env_scenario3\<lparr>cancel_resp := \<lambda>k. Inl JSONDecodeError\<rparr>"
  have h: "API_SECRET cfg_scenario1 = Some ''secret''"
    by (simp add: cfg_scenario1_def)
  have ok: "\<forall>j<length ?orders. cancel_completes GCBEX env_scenario3 j"
    by (simp add: env_scenario3_def)
  have ok': "\<forall>j<length ?orders. cancel_completes MEXC ?en j"
    by (simp add: env_scenario3_def)
  have listing': "orders_resp ?en = Inr (PList ?orders)"
    by (simp add: example_orders(1))
  have eq: "orders_resp env_scenario3 = open_orders_doc"
    by (simp add: env_scenario3_def)
  have a: "cancel_attempts (snd (cancel_all_orders GCBEX cfg_scenario1 stub_lib env_scenario3))
      = [PInt 1, PInt 2]"
    using C2_cancel_all_orders [OF h example_orders(1) example_orders(3) example_orders(4),
        where ex = GCBEX and lib = stub_lib] ok
    by blast
  have b: "cancel_attempts (snd (cancel_all_orders MEXC cfg_scenario1 stub_lib ?en))
      = [PInt 1, PInt 2]"
    using C2_cancel_all_orders [OF h listing' example_orders(3) example_orders(4),
        where ex = MEXC and lib = stub_lib] ok'
    by blast
  from h eq a b show ?thesis by blast
qed

section \<open>Exceptions that leave a computation\<close>

lemma orders_placed_append: "orders_placed (xs @ ys) = orders_placed xs @ orders_placed ys"
  by (induction xs rule: orders_placed.induct) auto

lemma funds_alerts_append: "funds_alerts (xs @ ys) = funds_alerts xs @ funds_alerts ys"
  by (induction xs rule: funds_alerts.induct) auto

lemma quiet_append: "quiet (xs @ ys) = (quiet xs \<and> quiet ys)"
  by (auto simp: quiet_def orders_placed_append funds_alerts_append)

lemma quiet_Nil: "quiet []"
  by (simp add: quiet_def)

lemma safe_ret: "not_interrupted (fst (ret x))"
  by (simp add: ret_def not_interrupted_def)

lemma safe_emit: "not_interrupted (fst (emit ev))"
  by (simp add: emit_def not_interrupted_def)

lemma safe_lift: "not_interrupted r \<Longrightarrow> not_interrupted (fst (lift r))"
  by (simp add: lift_def)

lemma fst_andthen:
  "fst (andthen m f) = (case fst m of Inl e \<Rightarrow> Inl e | Inr x \<Rightarrow> fst (f x))"
  by (cases m) (auto simp: andthen_def split: sum.splits prod.splits)

lemma snd_andthen:
  "snd (andthen m f) = (case fst m of Inl e \<Rightarrow> snd m | Inr x \<Rightarrow> snd m @ snd (f x))"
  by (cases m) (auto simp: andthen_def split: sum.splits prod.splits)

lemma fst_try_except:
  "fst (try_except m h)
     = (case fst m of Inr x \<Rightarrow> Inr x
        | Inl e \<Rightarrow> if is_Exception e then fst (h e) else Inl e)"
  by (cases m) (auto simp: try_except_def split: sum.splits prod.splits)

lemma snd_try_except:
  "snd (try_except m h)
     = (case fst m of Inr x \<Rightarrow> snd m
        | Inl e \<Rightarrow> if is_Exception e then snd m @ snd (h e) else snd m)"
  by (cases m) (auto simp: try_except_def split: sum.splits prod.splits)

lemma not_interrupted_simps:
  "not_interrupted (Inl e) = is_Exception e"
  "not_interrupted (Inr x) = True"
  by (simp_all add: not_interrupted_def)

lemma safe_andthen:
  "not_interrupted (fst m) \<Longrightarrow> (\<And>x. not_interrupted (fst (f x))) \<Longrightarrow>
     not_interrupted (fst (andthen m f))"
  by (cases "fst m") (simp_all add: fst_andthen not_interrupted_simps)

lemma safe_try_except:
  assumes "not_interrupted (fst m)" and "\<And>e. not_interrupted (fst (h e))"
  shows "not_interrupted (fst (try_except m h))"
proof (cases "fst m")
  case (Inl e)
  with assms(1) have "is_Exception e" by (simp add: not_interrupted_def)
  with Inl assms(2) show ?thesis by (simp add: fst_try_except)
next
  case (Inr x)
  then show ?thesis by (simp add: fst_try_except not_interrupted_def)
qed

lemma safe_for_loop:
  "(\<And>k x. not_interrupted (fst (body k x))) \<Longrightarrow> not_interrupted (fst (for_loop body k0 xs))"
proof (induction xs arbitrary: k0)
  case Nil
  show ?case by (simp add: safe_ret)
next
  case (Cons x xs)
  from Cons.prems have "not_interrupted (fst (body k0 x))" .
  moreover from Cons have "not_interrupted (fst (for_loop body (Suc k0) xs))" by simp
  ultimately show ?case
    by (auto simp: not_interrupted_def split: sum.splits prod.splits)
qed

lemma safe_if: "not_interrupted (fst a) \<Longrightarrow> not_interrupted (fst b) \<Longrightarrow>
    not_interrupted (fst (if P then a else b))"
  by simp

lemma safe_if_value: "not_interrupted a \<Longrightarrow> not_interrupted b \<Longrightarrow>
    not_interrupted (if P then a else b)"
  by simp

lemma safe_py:
  "not_interrupted (py_contains k v)"
  "not_interrupted (py_getitem v k)"
  "not_interrupted (py_float lib v)"
  "not_interrupted (py_iter v)"
  by (auto simp: not_interrupted_def split: sum.splits
      dest: py_contains_exn py_getitem_exn py_float_exn py_iter_exn)

lemma safe_Inr: "not_interrupted (Inr x)"
  by (simp add: not_interrupted_def)

lemma safe_scan: "not_interrupted (scan_balances lib asset items)"
  by (auto simp: not_interrupted_def split: sum.splits dest: scan_balances_exn)

lemma query_parts_exn: "query_parts lib params ks = Inl e \<Longrightarrow> is_Exception e"
  by (induction ks arbitrary: e) (auto split: option.splits sum.splits)

lemma safe_sign:
  "not_interrupted (sign_gcbex c lib ts m p b)"
  "not_interrupted (sign_mexc c lib params)"
  by (auto simp: not_interrupted_def sign_gcbex_def sign_mexc_def query_def
      split: sum.splits option.splits dest: query_parts_exn)

lemma safe_logging: "not_interrupted (fst (logging l msg))"
  by (simp add: logging_def safe_emit)

lemma safe_sleep: "not_interrupted (fst (sleep n))"
  by (simp add: sleep_def safe_emit)

lemma safe_alert: "not_interrupted (fst (send_telegram_alert a))"
  by (simp add: send_telegram_alert_def safe_emit)

lemmas safe_intros = safe_andthen safe_try_except safe_for_loop safe_if safe_if_value safe_ret safe_emit
  safe_lift safe_py safe_Inr safe_scan safe_sign safe_logging safe_sleep safe_alert

lemma safe_get_price: "not_interrupted resp \<Longrightarrow> not_interrupted (fst (get_price path field c lib resp))"
  unfolding get_price_def by (intro safe_intros) 

lemma safe_read_balance: "not_interrupted (fst (read_balance lib asset doc))"
  unfolding read_balance_def by (intro safe_intros)

lemma safe_get_balance:
  "not_interrupted resp \<Longrightarrow> not_interrupted (fst (get_balance ex c lib ts resp asset))"
  by (cases ex) (simp_all add: get_balance_mexc_def get_balance_gcbex_def Let_def,
      (intro safe_intros safe_read_balance; assumption)+)


lemma safe_place_order:
  "not_interrupted resp \<Longrightarrow> not_interrupted (fst (place_order ex c lib ts resp side price))"
  by (cases ex) (simp_all add: place_order_mexc_def place_order_gcbex_def Let_def,
      (intro safe_intros; assumption)+)

lemma safe_cancel_order_gcbex:
  "not_interrupted (transport (cancel_sent en k)) \<Longrightarrow> not_interrupted (cancel_resp en k) \<Longrightarrow>
     not_interrupted (fst (cancel_order_gcbex c lib en k order))"
  unfolding cancel_order_gcbex_def Let_def by (intro safe_intros; assumption)

lemma safe_cancel_order_mexc:
  "not_interrupted (transport (cancel_sent en k)) \<Longrightarrow>
     not_interrupted (fst (cancel_order_mexc c lib en k order))"
  unfolding cancel_order_mexc_def Let_def by (intro safe_intros; assumption)

lemma safe_list_request: "not_interrupted (list_request_gcbex c lib ts)"
  using safe_sign(1) [of c lib "str_int ts" "''GET''" "''/sapi/v2/openOrders''" "[]"]
  by (auto simp: list_request_gcbex_def Let_def not_interrupted_def split: sum.splits)

lemma safe_cancel_all_orders:
  assumes "env_ok en"
  shows "not_interrupted (fst (cancel_all_orders ex c lib en))"
proof -
  from assms have o: "not_interrupted (orders_resp en)"
    and k: "\<And>k. not_interrupted (cancel_resp en k)"
    and t: "\<And>k. not_interrupted (transport (cancel_sent en k))"
    by (simp_all add: env_ok_def)
  show ?thesis
  proof (cases ex)
    case MEXC
    show ?thesis
      unfolding MEXC cancel_all_orders.simps cancel_all_orders_mexc_def Let_def
      by (intro safe_intros safe_cancel_order_mexc o k t)
  next
    case GCBEX
    show ?thesis
      unfolding GCBEX cancel_all_orders.simps cancel_all_orders_gcbex_def
      by (intro safe_intros safe_cancel_order_gcbex safe_list_request o k t)
  qed
qed

lemma safe_evaluate:
  assumes "env_ok en"
  shows "not_interrupted (fst (evaluate_buy ex c lib en qb))"
    and "not_interrupted (fst (evaluate_sell ex c lib en bb))"
proof -
  from assms have b: "not_interrupted (buy_resp en)" and s: "not_interrupted (sell_resp en)"
    by (simp_all add: env_ok_def)
  show "not_interrupted (fst (evaluate_buy ex c lib en qb))"
    unfolding evaluate_buy_def Let_def by (intro safe_intros safe_place_order b)
  show "not_interrupted (fst (evaluate_sell ex c lib en bb))"
    unfolding evaluate_sell_def Let_def by (intro safe_intros safe_place_order s)
qed

lemma safe_get_price_of:
  "not_interrupted resp \<Longrightarrow> not_interrupted (fst (get_price_of ex c lib resp))"
  by (cases ex) (simp_all add: get_price_mexc_def get_price_gcbex_def safe_get_price)

lemma safe_cycle_body:
  assumes "env_ok en"
  shows "not_interrupted (fst (cycle_body ex c lib en))"
proof -
  from assms have p: "not_interrupted (price_resp en)" and b: "not_interrupted (base_resp en)"
    and q: "not_interrupted (quote_resp en)"
    by (simp_all add: env_ok_def)
  show ?thesis
    unfolding cycle_body_def
    by (intro safe_intros safe_get_price_of safe_cancel_all_orders safe_get_balance
        safe_evaluate assms p b q)
qed

lemma cycle_returns:
  assumes "env_ok en"
  shows "fst (cycle ex c lib en) = Inr ()"
proof (cases "fst (cycle_body ex c lib en)")
  case (Inl e)
  with safe_cycle_body [OF assms, of ex c lib] have "is_Exception e"
    by (simp add: not_interrupted_simps)
  with Inl show ?thesis
    by (simp add: cycle_def fst_try_except fst_andthen logging_def send_telegram_alert_def
        sleep_def emit_def)
next
  case (Inr u)
  then show ?thesis by (simp add: cycle_def fst_try_except)
qed

lemma cycle_handler:
  assumes "cycle_body ex c lib en = (Inl e, tr)" and "is_Exception e"
  shows "cycle ex c lib en
           = (Inr (), tr @ [Log ERROR ''Error in loop'', Alert (BotError e), Sleep 10])"
  using assms by (simp add: cycle_def act_defs)

lemma cycle_no_exception:
  assumes "cycle_body ex c lib en = (Inr u, tr)"
  shows "cycle ex c lib en = (Inr (), tr)"
  using assms by (simp add: cycle_def act_defs)

lemma main_running:
  assumes "\<And>k. k < n \<Longrightarrow> env_ok (envs k)"
  shows "fst (main ex c lib envs n) = Running
       \<and> snd (main ex c lib envs n) = concat (map (\<lambda>k. snd (cycle ex c lib (envs k))) [0..<n])"
  using assms
proof (induction n)
  case 0
  show ?case by simp
next
  case (Suc n)
  then have run: "fst (main ex c lib envs n) = Running"
    and tr: "snd (main ex c lib envs n) = concat (map (\<lambda>k. snd (cycle ex c lib (envs k))) [0..<n])"
    by simp_all
  have "fst (cycle ex c lib (envs n)) = Inr ()"
    using Suc.prems [of n] by (simp add: cycle_returns)
  with run tr show ?case
    by (cases "main ex c lib envs n"; cases "cycle ex c lib (envs n)") auto
qed


section \<open>Traces without orders and funding alerts\<close>

lemma quiet_ret: "quiet (snd (ret x))"
  by (simp add: ret_def quiet_def)

lemma quiet_lift: "quiet (snd (lift r))"
  by (simp add: lift_def quiet_def)

lemma quiet_andthen:
  "quiet (snd m) \<Longrightarrow> (\<And>x. quiet (snd (f x))) \<Longrightarrow> quiet (snd (andthen m f))"
  by (cases "fst m") (simp_all add: snd_andthen quiet_append)

lemma quiet_try_except:
  "quiet (snd m) \<Longrightarrow> (\<And>e. quiet (snd (h e))) \<Longrightarrow> quiet (snd (try_except m h))"
  by (cases "fst m") (simp_all add: snd_try_except quiet_append)

lemma quiet_if: "quiet (snd a) \<Longrightarrow> quiet (snd b) \<Longrightarrow> quiet (snd (if P then a else b))"
  by simp

lemma quiet_for_loop:
  "(\<And>k x. quiet (snd (body k x))) \<Longrightarrow> quiet (snd (for_loop body k0 xs))"
proof (induction xs arbitrary: k0)
  case Nil
  show ?case by (simp add: quiet_ret)
next
  case (Cons x xs)
  from Cons.prems have "quiet (snd (body k0 x))" .
  moreover from Cons have "quiet (snd (for_loop body (Suc k0) xs))" by simp
  ultimately show ?case
    by (auto simp: quiet_append split: sum.splits prod.splits)
qed

lemma quiet_events:
  "quiet (snd (sleep n))"
  "quiet (snd (logging l msg))"
  "quiet (snd (send_telegram_alert (PriceUpdate p)))"
  "quiet (snd (emit (Http GetPrice r)))"
  "quiet (snd (emit (Http (GetBalance asset) r)))"
  "quiet (snd (emit (Http ListOrders r)))"
  "quiet (snd (emit (Http (CancelOrder oid) r)))"
  by (simp_all add: sleep_def logging_def send_telegram_alert_def emit_def quiet_def)

lemmas quiet_intros = quiet_andthen quiet_try_except quiet_if quiet_for_loop quiet_ret quiet_lift
  quiet_events

lemma quiet_get_price_of: "quiet (snd (get_price_of ex c lib resp))"
  by (cases ex) (simp_all add: get_price_mexc_def get_price_gcbex_def get_price_def,
      (intro quiet_intros)+)

lemma quiet_get_balance: "quiet (snd (get_balance ex c lib ts resp asset))"
  by (cases ex) (simp_all add: get_balance_mexc_def get_balance_gcbex_def read_balance_def Let_def,
      (intro quiet_intros)+)

lemma quiet_cancel_order:
  "quiet (snd (cancel_order_mexc c lib en k order))"
  "quiet (snd (cancel_order_gcbex c lib en k order))"
  unfolding cancel_order_mexc_def cancel_order_gcbex_def Let_def
  by (intro quiet_intros)+

lemma quiet_cancel_all_orders: "quiet (snd (cancel_all_orders ex c lib en))"
proof (cases ex)
  case MEXC
  show ?thesis
    unfolding MEXC cancel_all_orders.simps cancel_all_orders_mexc_def Let_def
    by (intro quiet_intros quiet_cancel_order)
next
  case GCBEX
  show ?thesis
    unfolding GCBEX cancel_all_orders.simps cancel_all_orders_gcbex_def
    by (intro quiet_intros quiet_cancel_order)
qed


section \<open>Results of the client operations and of a cycle\<close>

lemma try_except_unit:
  assumes "not_interrupted (fst m)" and "\<And>e. fst (h e) = Inr ()"
  shows "fst (try_except m h) = Inr ()"
proof (cases "fst m")
  case (Inl e)
  with assms(1) have "is_Exception e" by (simp add: not_interrupted_simps)
  with Inl assms(2) show ?thesis by (simp add: fst_try_except)
next
  case (Inr u)
  then show ?thesis by (simp add: fst_try_except)
qed

lemma fst_events:
  "fst (sleep n) = Inr ()"
  "fst (logging l msg) = Inr ()"
  "fst (send_telegram_alert a) = Inr ()"
  "fst (emit ev) = Inr ()"
  by (simp_all add: sleep_def logging_def send_telegram_alert_def emit_def)

lemma snd_events:
  "snd (sleep n) = [Sleep n]"
  "snd (logging l msg) = [Log l msg]"
  "snd (send_telegram_alert a) = [Alert a]"
  "snd (emit ev) = [ev]"
  by (simp_all add: sleep_def logging_def send_telegram_alert_def emit_def)

lemma cancel_all_orders_gcbex_returns:
  assumes "env_ok en"
  shows "fst (cancel_all_orders_gcbex c lib en) = Inr ()"
proof -
  from assms have o: "not_interrupted (orders_resp en)"
    and k: "\<And>k. not_interrupted (cancel_resp en k)"
    and t: "\<And>k. not_interrupted (transport (cancel_sent en k))"
    by (simp_all add: env_ok_def)
  show ?thesis
    unfolding cancel_all_orders_gcbex_def
    by (rule try_except_unit)
      (intro safe_intros safe_cancel_order_gcbex safe_list_request o k t, simp add: fst_events)
qed

lemma cancel_all_orders_mexc_returns:
  assumes "API_SECRET c = Some secret" and "env_ok en"
  shows "fst (cancel_all_orders_mexc c lib en) = Inr ()"
proof -
  from assms(2) have o: "not_interrupted (orders_resp en)"
    and k: "\<And>k. not_interrupted (cancel_resp en k)"
    and t: "\<And>k. not_interrupted (transport (cancel_sent en k))"
    by (simp_all add: env_ok_def)
  obtain sg where sg: "sign_mexc c lib [(''symbol'', PStr (SYMBOL c)),
      (''timestamp'', PInt (orders_ts en))] = Inr sg"
    using sign_mexc_canonical [OF assms(1), of "[(''symbol'', PStr (SYMBOL c)),
      (''timestamp'', PInt (orders_ts en))]" lib] by simp
  show ?thesis
    unfolding cancel_all_orders_mexc_def Let_def sg andthen_lift_Inr
    by (rule try_except_unit)
      (intro safe_intros safe_cancel_order_mexc o k t, simp add: fst_events)
qed

lemma cancel_all_orders_returns:
  assumes "API_SECRET c = Some secret" and "env_ok en"
  shows "fst (cancel_all_orders ex c lib en) = Inr ()"
  using assms
  by (cases ex) (simp_all add: cancel_all_orders_mexc_returns cancel_all_orders_gcbex_returns)

lemma place_order_gcbex_trace:
  assumes "API_SECRET c = Some secret" and "not_interrupted resp"
  shows "fst (place_order_gcbex c lib ts resp side price) = Inr ()
       \<and> orders_placed (snd (place_order_gcbex c lib ts resp side price)) = [(side, price)]
       \<and> funds_alerts (snd (place_order_gcbex c lib ts resp side price)) = []"
proof (cases resp)
  case (Inl e)
  with assms show ?thesis
    by (simp add: place_order_gcbex_def sign_gcbex_def act_defs Let_def not_interrupted_simps)
next
  case (Inr doc)
  show ?thesis
  proof (cases "py_contains ''orderId'' doc")
    case (Inl e)
    then have "is_Exception e" by (rule py_contains_exn)
    with Inl Inr assms(1) show ?thesis
      by (simp add: place_order_gcbex_def sign_gcbex_def act_defs Let_def)
  next
    case (Inr placed)
    with \<open>resp = Inr doc\<close> assms(1) show ?thesis
      by (simp add: place_order_gcbex_def sign_gcbex_def act_defs Let_def)
  qed
qed

lemma place_order_mexc_trace:
  assumes "API_SECRET c = Some secret" and "not_interrupted resp"
  shows "fst (place_order_mexc c lib ts resp side price) = Inr ()
       \<and> orders_placed (snd (place_order_mexc c lib ts resp side price)) = [(side, price)]
       \<and> funds_alerts (snd (place_order_mexc c lib ts resp side price)) = []"
proof -
  let ?params = "[(''symbol'', PStr (SYMBOL c)), (''side'', PStr side),
                    (''type'', PStr ''LIMIT''), (''timeInForce'', PStr ''GTC''),
                    (''quantity'', PFloat (ORDER_SIZE c)),
                    (''price'', PStr (format_6f lib price)),
                    (''timestamp'', PInt ts)]"
  obtain sg where sg: "sign_mexc c lib ?params = Inr sg"
    using sign_mexc_canonical [OF assms(1), of ?params lib] by simp
  show ?thesis
  proof (cases resp)
    case (Inl e)
    with assms sg show ?thesis
      by (simp add: place_order_mexc_def act_defs Let_def not_interrupted_simps)
  next
    case (Inr doc)
    show ?thesis
    proof (cases "py_contains ''orderId'' doc")
      case (Inl e)
      then have "is_Exception e" by (rule py_contains_exn)
      with Inl Inr sg show ?thesis
        by (simp add: place_order_mexc_def act_defs Let_def)
    next
      case (Inr placed)
      with \<open>resp = Inr doc\<close> sg show ?thesis
        by (simp add: place_order_mexc_def act_defs Let_def)
    qed
  qed
qed

lemma place_order_trace:
  assumes "API_SECRET c = Some secret" and "not_interrupted resp"
  shows "fst (place_order ex c lib ts resp side price) = Inr ()
       \<and> orders_placed (snd (place_order ex c lib ts resp side price)) = [(side, price)]
       \<and> funds_alerts (snd (place_order ex c lib ts resp side price)) = []"
  using assms by (cases ex) (simp_all add: place_order_mexc_trace place_order_gcbex_trace)


lemma evaluate_buy_trace:
  assumes "API_SECRET c = Some secret" and "not_interrupted (buy_resp en)"
  shows "fst (evaluate_buy ex c lib en quote_balance) = Inr ()
       \<and> orders_placed (snd (evaluate_buy ex c lib en quote_balance))
           = (if quote_balance \<ge> bid_price c * ORDER_SIZE c then [(''BUY'', bid_price c)] else [])
       \<and> funds_alerts (snd (evaluate_buy ex c lib en quote_balance))
           = (if quote_balance \<ge> bid_price c * ORDER_SIZE c then [] else [''BUY''])"
  using place_order_trace [OF assms, of ex lib "buy_ts en" "''BUY''" "bid_price c"]
  by (simp add: evaluate_buy_def Let_def fst_andthen snd_andthen fst_events snd_events)

lemma evaluate_sell_trace:
  assumes "API_SECRET c = Some secret" and "not_interrupted (sell_resp en)"
  shows "fst (evaluate_sell ex c lib en base_balance) = Inr ()
       \<and> orders_placed (snd (evaluate_sell ex c lib en base_balance))
           = (if base_balance \<ge> ORDER_SIZE c then [(''SELL'', ask_price c)] else [])
       \<and> funds_alerts (snd (evaluate_sell ex c lib en base_balance))
           = (if base_balance \<ge> ORDER_SIZE c then [] else [''SELL''])"
  using place_order_trace [OF assms, of ex lib "sell_ts en" "''SELL''" "ask_price c"]
  by (simp add: evaluate_sell_def Let_def fst_andthen snd_andthen fst_events snd_events)

lemma get_price_of_returns:
  assumes "not_interrupted resp"
  shows "\<exists>p. fst (get_price_of ex c lib resp) = Inr p"
  using assms
  by (cases ex) (simp_all add: get_price_mexc_def get_price_gcbex_def get_price_result)

lemma cycle_trace:
  assumes secret: "API_SECRET c = Some secret" and ok: "env_ok en"
  shows "fst (cycle_body ex c lib en) = Inr ()
       \<and> orders_placed (snd (cycle_body ex c lib en))
           = orders_placed (snd (evaluate_buy ex c lib en
                (balance_try lib (quote_asset c) (quote_resp en))))
             @ orders_placed (snd (evaluate_sell ex c lib en
                (balance_try lib (base_asset c) (base_resp en))))
       \<and> funds_alerts (snd (cycle_body ex c lib en))
           = funds_alerts (snd (evaluate_buy ex c lib en
                (balance_try lib (quote_asset c) (quote_resp en))))
             @ funds_alerts (snd (evaluate_sell ex c lib en
                (balance_try lib (base_asset c) (base_resp en))))"
proof -
  from ok have p: "not_interrupted (price_resp en)" and b: "not_interrupted (base_resp en)"
    and q: "not_interrupted (quote_resp en)" and bu: "not_interrupted (buy_resp en)"
    and se: "not_interrupted (sell_resp en)"
    by (simp_all add: env_ok_def)
  obtain cp where P: "fst (get_price_of ex c lib (price_resp en)) = Inr cp"
    using get_price_of_returns [OF p] by blast
  note C = cancel_all_orders_returns [OF secret ok, of ex lib]
  note B = get_balance_result [OF secret b, of ex lib "base_ts en" "base_asset c"]
  note Q = get_balance_result [OF secret q, of ex lib "quote_ts en" "quote_asset c"]
  note EB = evaluate_buy_trace [OF secret bu, of ex lib "balance_try lib (quote_asset c) (quote_resp en)"]
  note ES = evaluate_sell_trace [OF secret se, of ex lib "balance_try lib (base_asset c) (base_resp en)"]
  have qp: "orders_placed (snd (get_price_of ex c lib (price_resp en))) = []"
      "funds_alerts (snd (get_price_of ex c lib (price_resp en))) = []"
    using quiet_get_price_of [of ex c lib "price_resp en"] by (simp_all add: quiet_def)
  have qc: "orders_placed (snd (cancel_all_orders ex c lib en)) = []"
      "funds_alerts (snd (cancel_all_orders ex c lib en)) = []"
    using quiet_cancel_all_orders [of ex c lib en] by (simp_all add: quiet_def)
  have qb: "orders_placed (snd (get_balance ex c lib ts resp asset)) = []"
      "funds_alerts (snd (get_balance ex c lib ts resp asset)) = []" for ts resp asset
    using quiet_get_balance [of ex c lib ts resp asset] by (simp_all add: quiet_def)
  have EB1: "fst (evaluate_buy ex c lib en (balance_try lib (quote_asset c) (quote_resp en))) = Inr ()"
    using EB by simp
  have ES1: "fst (evaluate_sell ex c lib en (balance_try lib (base_asset c) (base_resp en))) = Inr ()"
    using ES by simp
  show ?thesis
    by (simp add: cycle_body_def fst_andthen snd_andthen fst_events snd_events P C B Q EB1 ES1
        orders_placed_append funds_alerts_append qp qc qb)
qed


lemma example_env_ok: "env_ok env_scenario3"
  by (simp add: env_ok_def env_scenario3_def price_doc_def account_doc_def open_orders_doc_def
      not_interrupted_simps)

lemma example_balances:
  "balance_try stub_lib ''USDT'' account_doc = 50"
  "balance_try stub_lib ''ETH'' account_doc = 3/2"
  by (simp_all add: balance_try_def account_doc_def read_balance_def check_item_def act_defs
      stub_lib_def)

lemma example_quote:
  "quote_asset cfg_scenario1 = ''USDT''" "base_asset cfg_scenario1 = ''ETH''"
  "bid_price cfg_scenario1 = 99" "ask_price cfg_scenario1 = 101" "ORDER_SIZE cfg_scenario1 = 1"
  by (simp_all add: quote_asset_def base_asset_def bid_price_def ask_price_def spread_def
      cfg_scenario1_def)

text \<open>
  C6: in a cycle with the secret configured and no interrupted request, let the quote and
  base balances be what \<^verbatim>\<open>get_balance\<close> returns in that cycle. The cycle sends a BUY
  order request, at the bid price, exactly when the quote balance is at least bid price
  times order size, and otherwise raises exactly one insufficient-funds alert for BUY; it
  sends a SELL order request, at the ask price, exactly when the base balance is at least
  the order size, and otherwise raises exactly one alert for SELL. With bid price 99, order
  size 1 and quote balance 50 the BUY step is one warning and one alert, and no request.
\<close>

theorem C6_balance_gated_orders:
  assumes "API_SECRET c = Some secret" and "env_ok en"
  shows "(\<exists>quote_balance base_balance.
       fst (get_balance ex c lib (quote_ts en) (quote_resp en) (quote_asset c)) = Inr quote_balance
     \<and> fst (get_balance ex c lib (base_ts en) (base_resp en) (base_asset c)) = Inr base_balance
     \<and> orders_placed (snd (cycle ex c lib en))
         = (if quote_balance \<ge> bid_price c * ORDER_SIZE c then [(''BUY'', bid_price c)] else [])
           @ (if base_balance \<ge> ORDER_SIZE c then [(''SELL'', ask_price c)] else [])
     \<and> funds_alerts (snd (cycle ex c lib en))
         = (if quote_balance \<ge> bid_price c * ORDER_SIZE c then [] else [''BUY''])
           @ (if base_balance \<ge> ORDER_SIZE c then [] else [''SELL'']))
   \<and> (bid_price c = 99 \<and> ORDER_SIZE c = 1 \<longrightarrow>
        snd (evaluate_buy ex c lib en 50)
          = [Log WARNING ''Not enough to BUY'', Alert (NotEnough (quote_asset c) ''BUY'' 50 99)])"
proof -
  let ?qb = "balance_try lib (quote_asset c) (quote_resp en)"
  let ?bb = "balance_try lib (base_asset c) (base_resp en)"
  from assms(2) have b: "not_interrupted (base_resp en)" and q: "not_interrupted (quote_resp en)"
    and bu: "not_interrupted (buy_resp en)" and se: "not_interrupted (sell_resp en)"
    by (simp_all add: env_ok_def)
  note T = cycle_trace [OF assms, of ex lib]
  then obtain tr where body: "cycle_body ex c lib en = (Inr (), tr)"
    by (cases "cycle_body ex c lib en") auto
  then have same: "snd (cycle ex c lib en) = snd (cycle_body ex c lib en)"
    by (simp add: cycle_no_exception)
  have Q: "fst (get_balance ex c lib (quote_ts en) (quote_resp en) (quote_asset c)) = Inr ?qb"
    using assms(1) q by (rule get_balance_result)
  have B: "fst (get_balance ex c lib (base_ts en) (base_resp en) (base_asset c)) = Inr ?bb"
    using assms(1) b by (rule get_balance_result)
  have O: "orders_placed (snd (cycle ex c lib en))
         = (if ?qb \<ge> bid_price c * ORDER_SIZE c then [(''BUY'', bid_price c)] else [])
           @ (if ?bb \<ge> ORDER_SIZE c then [(''SELL'', ask_price c)] else [])"
    using T evaluate_buy_trace [OF assms(1) bu, of ex lib ?qb]
      evaluate_sell_trace [OF assms(1) se, of ex lib ?bb]
    by (simp add: same)
  have A: "funds_alerts (snd (cycle ex c lib en))
         = (if ?qb \<ge> bid_price c * ORDER_SIZE c then [] else [''BUY''])
           @ (if ?bb \<ge> ORDER_SIZE c then [] else [''SELL''])"
    using T evaluate_buy_trace [OF assms(1) bu, of ex lib ?qb]
      evaluate_sell_trace [OF assms(1) se, of ex lib ?bb]
    by (simp add: same)
  have S: "bid_price c = 99 \<and> ORDER_SIZE c = 1 \<longrightarrow>
        snd (evaluate_buy ex c lib en 50)
          = [Log WARNING ''Not enough to BUY'', Alert (NotEnough (quote_asset c) ''BUY'' 50 99)]"
    by (simp add: evaluate_buy_def Let_def snd_andthen fst_events snd_events)
  from Q B O A S show ?thesis by blast
qed

theorem C6_balance_gated_orders_witness:
  "API_SECRET cfg_scenario1 = Some ''secret'' \<and> env_ok env_scenario3
   \<and> orders_placed (snd (cycle GCBEX cfg_scenario1 stub_lib env_scenario3)) = [(''SELL'', 101)]
   \<and> funds_alerts (snd (cycle GCBEX cfg_scenario1 stub_lib env_scenario3)) = [''BUY'']"
proof -
  have h: "API_SECRET cfg_scenario1 = Some ''secret''"
    by (simp add: cfg_scenario1_def)
  have r: "quote_resp env_scenario3 = account_doc" "base_resp env_scenario3 = account_doc"
    by (simp_all add: env_scenario3_def)
  have ni: "not_interrupted account_doc"
    by (simp add: account_doc_def not_interrupted_simps)
  from C6_balance_gated_orders [OF h example_env_ok, of GCBEX stub_lib]
  obtain qb bb where
    Q: "fst (get_balance GCBEX cfg_scenario1 stub_lib (quote_ts env_scenario3)
          (quote_resp env_scenario3) (quote_asset cfg_scenario1)) = Inr qb"
    and B: "fst (get_balance GCBEX cfg_scenario1 stub_lib (base_ts env_scenario3)
          (base_resp env_scenario3) (base_asset cfg_scenario1)) = Inr bb"
    and O: "orders_placed (snd (cycle GCBEX cfg_scenario1 stub_lib env_scenario3))
         = (if qb \<ge> bid_price cfg_scenario1 * ORDER_SIZE cfg_scenario1
            then [(''BUY'', bid_price cfg_scenario1)] else [])
           @ (if bb \<ge> ORDER_SIZE cfg_scenario1 then [(''SELL'', ask_price cfg_scenario1)] else [])"
    and A: "funds_alerts (snd (cycle GCBEX cfg_scenario1 stub_lib env_scenario3))
         = (if qb \<ge> bid_price cfg_scenario1 * ORDER_SIZE cfg_scenario1 then [] else [''BUY''])
           @ (if bb \<ge> ORDER_SIZE cfg_scenario1 then [] else [''SELL''])"
    by blast
  from Q have qb: "qb = 50"
    by (simp add: r example_quote get_balance_gcbex_result [OF h ni] example_balances)
  from B have bb: "bb = 3/2"
    by (simp add: r example_quote get_balance_gcbex_result [OF h ni] example_balances)
  from O A have "orders_placed (snd (cycle GCBEX cfg_scenario1 stub_lib env_scenario3)) = [(''SELL'', 101)]"
    and "funds_alerts (snd (cycle GCBEX cfg_scenario1 stub_lib env_scenario3)) = [''BUY'']"
    by (simp_all add: qb bb example_quote)
  with h example_env_ok show ?thesis by blast
qed

text \<open>
  C9: when no request of the first \<open>n\<close> cycles is interrupted, the loop is still running
  after \<open>n\<close> cycles, for every \<open>n\<close>; its trace is the traces of the cycles one after the
  other; and a cycle whose body raises an exception ends normally, with the events of the
  body followed by the error log record, the alert carrying the exception and the delay,
  so that the next cycle begins.
\<close>

theorem C9_loop_never_exits:
  assumes "\<And>k. k < n \<Longrightarrow> env_ok (envs k)"
  shows "fst (main ex c lib envs n) = Running
       \<and> snd (main ex c lib envs n) = concat (map (\<lambda>k. snd (cycle ex c lib (envs k))) [0..<n])
       \<and> (\<forall>k<n. \<forall>e tr. cycle_body ex c lib (envs k) = (Inl e, tr) \<longrightarrow>
            cycle ex c lib (envs k)
              = (Inr (), tr @ [Log ERROR ''Error in loop'', Alert (BotError e), Sleep 10]))"
proof -
  have "cycle ex c lib (envs k)
      = (Inr (), tr @ [Log ERROR ''Error in loop'', Alert (BotError e), Sleep 10])"
    if "k < n" and body: "cycle_body ex c lib (envs k) = (Inl e, tr)" for k e tr
  proof -
    from assms [OF \<open>k < n\<close>] have "not_interrupted (fst (cycle_body ex c lib (envs k)))"
      by (rule safe_cycle_body)
    with body have "is_Exception e" by (simp add: not_interrupted_simps)
    with body show ?thesis by (rule cycle_handler)
  qed
  moreover have "fst (main ex c lib envs n) = Running
       \<and> snd (main ex c lib envs n) = concat (map (\<lambda>k. snd (cycle ex c lib (envs k))) [0..<n])"
    by (rule main_running) (rule assms)
  ultimately show ?thesis by blast
qed

theorem C9_loop_never_exits_witness:
  "env_ok env_scenario3
   \<and> fst (cycle_body GCBEX cfg_no_secret stub_lib env_scenario3) = Inl AttributeError
   \<and> cycle GCBEX cfg_no_secret stub_lib env_scenario3
       = (Inr (), snd (cycle_body GCBEX cfg_no_secret stub_lib env_scenario3)
            @ [Log ERROR ''Error in loop'', Alert (BotError AttributeError), Sleep 10])
   \<and> fst (main GCBEX cfg_no_secret stub_lib (\<lambda>k. env_scenario3) 2) = Running"
proof -
  have p: "not_interrupted (price_resp env_scenario3)"
    using example_env_ok by (simp add: env_ok_def)
  obtain cp where P: "fst (get_price_gcbex cfg_no_secret stub_lib (price_resp env_scenario3)) = Inr cp"
    using get_price_of_returns [OF p, of GCBEX cfg_no_secret stub_lib] by auto
  have C: "fst (cancel_all_orders_gcbex cfg_no_secret stub_lib env_scenario3) = Inr ()"
    by (rule cancel_all_orders_gcbex_returns [OF example_env_ok])
  have B: "fst (get_balance_gcbex cfg_no_secret stub_lib ts resp asset) = Inl AttributeError"
    for ts resp asset
    by (simp add: get_balance_gcbex_def sign_gcbex_def cfg_no_secret_def Let_def act_defs)
  have raised: "fst (cycle_body GCBEX cfg_no_secret stub_lib env_scenario3) = Inl AttributeError"
    by (simp add: cycle_body_def fst_andthen fst_events P C B)
  then have body: "cycle_body GCBEX cfg_no_secret stub_lib env_scenario3
      = (Inl AttributeError, snd (cycle_body GCBEX cfg_no_secret stub_lib env_scenario3))"
    by (cases "cycle_body GCBEX cfg_no_secret stub_lib env_scenario3") simp
  note inst = C9_loop_never_exits [where n = 2 and envs = "\<lambda>k. env_scenario3" and ex = GCBEX
      and c = cfg_no_secret and lib = stub_lib, OF example_env_ok]
  from inst have run: "fst (main GCBEX cfg_no_secret stub_lib (\<lambda>k. env_scenario3) 2) = Running"
    by blast
  have "(0::nat) < 2" by simp
  with inst body have "cycle GCBEX cfg_no_secret stub_lib env_scenario3
       = (Inr (), snd (cycle_body GCBEX cfg_no_secret stub_lib env_scenario3)
            @ [Log ERROR ''Error in loop'', Alert (BotError AttributeError), Sleep 10])"
    by blast
  with example_env_ok raised run show ?thesis by blast
qed

end
